theory Spec2Isabelle
  imports Main "HOL-Library.Sublist"
begin

section \<open>JavaScript values and library functions used by index.js\<close>

text \<open>
  Strings are lists of 8-bit characters, read as Latin-1 code units. A number is one of
  the values the handlers can compute: \<open>NaN\<close>, the two infinities, or an integer that a
  double holds (\<open>Num\<close>). An integer result is rounded to the nearest double
  (\<open>round_double\<close>, ties to even, \<open>Infinity\<close> once the rounded value reaches \<open>2^1024\<close>), as
  \<open>parseInt\<close> of Node's engine and the multiplication of two numbers do; negative zero
  is not told apart from zero (\<open>Math.max(0, x)\<close> returns zero for both).
\<close>

datatype jsnum = NaN | NegInfinity | Num int | PosInfinity

function bit_length :: "int \<Rightarrow> nat" where
  "bit_length n = (if n \<le> 0 then 0 else Suc (bit_length (n div 2)))"
  by pat_completeness auto
termination
  by (relation "measure nat") auto

declare bit_length.simps [simp del]

definition round_double :: "int \<Rightarrow> jsnum" where
  "round_double n =
     (let m = \<bar>n\<bar>
      in if m < 2 ^ 53 then Num n
         else
           (let e = bit_length m - 53;
                q = m div 2 ^ e;
                r = m mod 2 ^ e;
                q' = (if 2 ^ e < 2 * r \<or> (2 * r = 2 ^ e \<and> odd q) then q + 1 else q);
                v = q' * 2 ^ e
            in if 2 ^ 1024 \<le> v then (if n < 0 then NegInfinity else PosInfinity)
               else Num (if n < 0 then - v else v)))"

fun Math_max :: "jsnum \<Rightarrow> jsnum \<Rightarrow> jsnum" where
  "Math_max NaN y = NaN"
| "Math_max x NaN = NaN"
| "Math_max PosInfinity y = PosInfinity"
| "Math_max x PosInfinity = PosInfinity"
| "Math_max NegInfinity y = y"
| "Math_max x NegInfinity = x"
| "Math_max (Num a) (Num b) = Num (max a b)"

fun Math_min :: "jsnum \<Rightarrow> jsnum \<Rightarrow> jsnum" where
  "Math_min NaN y = NaN"
| "Math_min x NaN = NaN"
| "Math_min NegInfinity y = NegInfinity"
| "Math_min x NegInfinity = NegInfinity"
| "Math_min PosInfinity y = y"
| "Math_min x PosInfinity = x"
| "Math_min (Num a) (Num b) = Num (min a b)"

fun negate :: "jsnum \<Rightarrow> jsnum" where
  "negate NaN = NaN"
| "negate NegInfinity = PosInfinity"
| "negate PosInfinity = NegInfinity"
| "negate (Num a) = Num (- a)"

definition scale_infinity :: "int \<Rightarrow> jsnum \<Rightarrow> jsnum" where
  \<comment> \<open>a finite number times an infinity: 0 gives \<open>NaN\<close>, otherwise the sign decides\<close>
  "scale_infinity a x = (if a = 0 then NaN else if 0 < a then x else negate x)"

fun js_times :: "jsnum \<Rightarrow> jsnum \<Rightarrow> jsnum" where
  "js_times NaN y = NaN"
| "js_times x NaN = NaN"
| "js_times (Num a) (Num b) = round_double (a * b)"
| "js_times (Num a) y = scale_infinity a y"
| "js_times x (Num b) = scale_infinity b x"
| "js_times PosInfinity y = y"
| "js_times NegInfinity y = negate y"

definition isWhiteSpace :: "char \<Rightarrow> bool" where
  \<comment> \<open>tab, line feed, vertical tab, form feed, carriage return, space, no-break space\<close>
  "isWhiteSpace c = (of_char c \<in> {9, 10, 11, 12, 13, 32, 160 :: nat})"

definition trim :: "string \<Rightarrow> string" where
  "trim s = rev (dropWhile isWhiteSpace (rev (dropWhile isWhiteSpace s)))"

definition or_default :: "string option \<Rightarrow> string \<Rightarrow> string" where
  \<comment> \<open>\<open>req.query.x || d\<close>: an absent parameter and the empty string are falsy\<close>
  "or_default p d = (case p of None \<Rightarrow> d | Some s \<Rightarrow> if s = [] then d else s)"

definition digit_value :: "char \<Rightarrow> nat option" where
  "digit_value c =
     (let n = of_char c :: nat
      in if 48 \<le> n \<and> n \<le> 57 then Some (n - 48)
         else if 97 \<le> n \<and> n \<le> 122 then Some (n - 87)
         else if 65 \<le> n \<and> n \<le> 90 then Some (n - 55)
         else None)"

definition radix_digit :: "nat \<Rightarrow> char \<Rightarrow> bool" where
  "radix_digit R c = (case digit_value c of None \<Rightarrow> False | Some v \<Rightarrow> v < R)"

fun digits_value :: "nat \<Rightarrow> int \<Rightarrow> string \<Rightarrow> int" where
  "digits_value R acc [] = acc"
| "digits_value R acc (c # cs) =
     digits_value R (acc * int R + (case digit_value c of None \<Rightarrow> 0 | Some v \<Rightarrow> int v)) cs"

definition parseInt :: "string \<Rightarrow> jsnum" where
  \<comment> \<open>\<open>parseInt(string)\<close> with no radix argument\<close>
  "parseInt input =
     (let S = dropWhile isWhiteSpace input;
          sign = (if S \<noteq> [] \<and> hd S = CHR ''-'' then - 1 else 1 :: int);
          S1 = (if S \<noteq> [] \<and> (hd S = CHR ''+'' \<or> hd S = CHR ''-'') then tl S else S);
          hex = (take 2 S1 = ''0x'' \<or> take 2 S1 = ''0X'');
          R = (if hex then 16 else 10);
          S2 = (if hex then drop 2 S1 else S1);
          Z = takeWhile (radix_digit R) S2
      in if Z = [] then NaN else round_double (sign * digits_value R 0 Z))"

datatype js_error = JsError (err_name: string) (err_message: string)

definition String_of_error :: "js_error \<Rightarrow> string" where
  \<comment> \<open>\<open>String(err)\<close>, that is \<open>Error.prototype.toString\<close>\<close>
  "String_of_error e =
     (if err_name e = [] then err_message e
      else if err_message e = [] then err_name e
      else err_name e @ '': '' @ err_message e)"

subsection \<open>Regular expressions\<close>

text \<open>
  The handler builds \<open>new RegExp("^" + q, "i")\<close> from the raw query text and the store
  evaluates it as a \<open>$regex\<close> filter, which succeeds when the pattern matches anywhere
  in the field. A pattern made of ordinary characters, the assertion \<open>^\<close> and the
  alternation bar is parsed and matched here (\<open>Regexp\<close>). For a pattern that uses any
  other syntax character the regular-expression engine is a parameter of the
  environment: it says whether \<open>new RegExp\<close> throws, and with which error, or else which
  strings the pattern matches (\<open>Extended\<close> keeps the pattern and the flags).
\<close>

datatype rx_term = LineStart | PatternChar char

datatype regexp =
    Regexp (disjunction: "rx_term list list") (ignoreCase: bool)
  | Extended string string

type_synonym regex_engine = "string \<Rightarrow> string \<Rightarrow> js_error + (string \<Rightarrow> bool)"

definition syntax_characters :: "char list" where
  "syntax_characters = CHR 0x5C # ''^$.*+?()[]{}|''"

definition parse_term :: "char \<Rightarrow> rx_term option" where
  "parse_term c =
     (if c = CHR ''^'' then Some LineStart
      else if c \<in> set syntax_characters then None
      else Some (PatternChar c))"

fun split_on :: "char \<Rightarrow> string \<Rightarrow> string list" where
  "split_on sep [] = [[]]"
| "split_on sep (c # cs) =
     (if c = sep then [] # split_on sep cs
      else (case split_on sep cs of [] \<Rightarrow> [[c]] | a # as \<Rightarrow> (c # a) # as))"

definition parse_pattern :: "string \<Rightarrow> rx_term list list option" where
  "parse_pattern pattern =
     those (map (\<lambda>alt. those (map parse_term alt)) (split_on (CHR ''|'') pattern))"

definition RegExp :: "regex_engine \<Rightarrow> string \<Rightarrow> string \<Rightarrow> js_error + regexp" where
  "RegExp engine pattern flags =
     (case parse_pattern pattern of
        Some alts \<Rightarrow> Inr (Regexp alts (CHR ''i'' \<in> set flags))
      | None \<Rightarrow>
         (case engine pattern flags of
            Inl syntax_error \<Rightarrow> Inl syntax_error
          | Inr accepts \<Rightarrow> Inr (Extended pattern flags)))"

text \<open>
  With the flag \<open>i\<close> two characters match when their upper-case forms are equal
  (\<open>Canonicalize\<close>). On Latin-1 the letters with an upper-case form inside Latin-1 are
  a to z and the accented letters 224 to 254 except the division sign 247; every other
  character stands for itself.
\<close>

definition toUpperCase :: "char \<Rightarrow> char" where
  "toUpperCase c =
     (let n = of_char c :: nat
      in if (97 \<le> n \<and> n \<le> 122) \<or> (224 \<le> n \<and> n \<le> 254 \<and> n \<noteq> 247)
         then char_of (n - 32) else c)"

definition Canonicalize :: "bool \<Rightarrow> char \<Rightarrow> char" where
  "Canonicalize ic c = (if ic then toUpperCase c else c)"

fun match_here :: "bool \<Rightarrow> rx_term list \<Rightarrow> bool \<Rightarrow> string \<Rightarrow> bool" where
  "match_here ic [] at_start s = True"
| "match_here ic (LineStart # ts) at_start s = (at_start \<and> match_here ic ts at_start s)"
| "match_here ic (PatternChar c # ts) at_start [] = False"
| "match_here ic (PatternChar c # ts) at_start (d # s) =
     (Canonicalize ic c = Canonicalize ic d \<and> match_here ic ts False s)"

fun match_from :: "bool \<Rightarrow> rx_term list list \<Rightarrow> bool \<Rightarrow> string \<Rightarrow> bool" where
  "match_from ic alts at_start [] = list_ex (\<lambda>alt. match_here ic alt at_start []) alts"
| "match_from ic alts at_start (d # s) =
     (list_ex (\<lambda>alt. match_here ic alt at_start (d # s)) alts \<or> match_from ic alts False s)"

fun regex_test :: "regex_engine \<Rightarrow> regexp \<Rightarrow> string \<Rightarrow> bool" where
  "regex_test engine (Regexp alts ic) s = match_from ic alts True s"
| "regex_test engine (Extended pattern flags) s =
     (case engine pattern flags of Inl syntax_error \<Rightarrow> False | Inr accepts \<Rightarrow> accepts s)"

section \<open>The document store\<close>

text \<open>
  A stored value is a scalar; a record is its \<open>_id\<close> and its other fields in order.
  The collection is the list of its records in the store's native order.
\<close>

datatype bson = BNull | BBool bool | BNum jsnum | BStr string | BOid string

record doc =
  doc_id :: bson
  doc_fields :: "(string \<times> bson) list"

definition field :: "doc \<Rightarrow> string \<Rightarrow> bson option" where
  "field d name = map_of (doc_fields d) name"

fun truthy :: "bson \<Rightarrow> bool" where
  "truthy BNull = False"
| "truthy (BBool b) = b"
| "truthy (BNum NaN) = False"
| "truthy (BNum (Num n)) = (n \<noteq> 0)"
| "truthy (BNum NegInfinity) = True"
| "truthy (BNum PosInfinity) = True"
| "truthy (BStr s) = (s \<noteq> [])"
| "truthy (BOid x) = True"

datatype query_filter =
    IdEq bson
  | BrandNameRegex regexp
  | KeyEqIdNe bson bson

fun matches :: "regex_engine \<Rightarrow> query_filter \<Rightarrow> doc \<Rightarrow> bool" where
  "matches engine (IdEq k) d = (doc_id d = k)"
| "matches engine (BrandNameRegex re) d =
     (case field d ''brand_name'' of Some (BStr s) \<Rightarrow> regex_test engine re s | _ \<Rightarrow> False)"
| "matches engine (KeyEqIdNe k i) d = (field d ''composition_key'' = Some k \<and> doc_id d \<noteq> i)"

type_synonym projection = "string list option"

definition project :: "projection \<Rightarrow> doc \<Rightarrow> doc" where
  \<comment> \<open>an inclusion projection keeps \<open>_id\<close> and the named fields\<close>
  "project p d =
     (case p of None \<Rightarrow> d
      | Some names \<Rightarrow> d\<lparr>doc_fields := filter (\<lambda>kv. fst kv \<in> set names) (doc_fields d)\<rparr>)"

datatype store_op =
    Connect
  | FindOne query_filter projection
  | Find query_filter projection jsnum jsnum

text \<open>
  The environment of a request: whether the module-level handle \<open>col\<close> is set, whether
  \<open>client.connect()\<close> fails when tried, the collection, the error with which a
  \<open>findOne\<close> or a \<open>find\<close> rejects (if it does), how the store reads a skip or limit that
  is not an integer of 64 bits (\<open>NaN\<close>, an infinity, a larger number: depending on the
  server it rejects the command or reads some integer), the regular-expression engine
  on patterns beyond the parsed ones, and the driver's \<open>ObjectId.isValid\<close> and
  \<open>new ObjectId\<close>.
\<close>

record world =
  cached :: bool
  connect_fails :: bool
  collection :: "doc list"
  findOne_error :: "js_error option"
  find_error :: "js_error option"
  read_unusual :: "jsnum \<Rightarrow> js_error + int"
  regex_engine :: regex_engine
  ObjectId_isValid :: "string \<Rightarrow> bool"
  new_ObjectId :: "string \<Rightarrow> bson"

definition connectToDb :: "world \<Rightarrow> (js_error + unit) \<times> world \<times> store_op list" where
  "connectToDb w =
     (if cached w then (Inr (), w, [])
      else if connect_fails w
        then (Inl (JsError ''Error'' ''Failed to connect to database''), w, [Connect])
        else (Inr (), w\<lparr>cached := True\<rparr>, [Connect]))"

definition findOne :: "world \<Rightarrow> query_filter \<Rightarrow> projection \<Rightarrow> js_error + doc option" where
  "findOne w f p =
     (case findOne_error w of
        Some e \<Rightarrow> Inl e
      | None \<Rightarrow>
         Inr (map_option (project p) (find (matches (regex_engine w) f) (collection w))))"

definition negative_skip :: js_error where
  "negative_skip = JsError ''MongoServerError'' ''Skip value must be non-negative''"

definition read_count :: "world \<Rightarrow> jsnum \<Rightarrow> js_error + int" where
  "read_count w x =
     (case x of
        Num n \<Rightarrow> if - (2 ^ 63) \<le> n \<and> n < 2 ^ 63 then Inr n else read_unusual w x
      | _ \<Rightarrow> read_unusual w x)"

definition apply_limit :: "int \<Rightarrow> 'a list \<Rightarrow> 'a list" where
  \<comment> \<open>limit 0 is no limit; a negative limit returns that many records in one batch\<close>
  "apply_limit l xs = (if l = 0 then xs else take (nat \<bar>l\<bar>) xs)"

definition find_toArray ::
  "world \<Rightarrow> query_filter \<Rightarrow> projection \<Rightarrow> jsnum \<Rightarrow> jsnum \<Rightarrow> js_error + doc list" where
  "find_toArray w f p skip limit =
     (case find_error w of
        Some e \<Rightarrow> Inl e
      | None \<Rightarrow>
         (case read_count w skip of
            Inl e \<Rightarrow> Inl e
          | Inr s \<Rightarrow>
             (case read_count w limit of
                Inl e \<Rightarrow> Inl e
              | Inr l \<Rightarrow>
                 if s < 0 then Inl negative_skip
                 else Inr (map (project p)
                        (apply_limit l
                           (drop (nat s) (filter (matches (regex_engine w) f) (collection w))))))))"

section \<open>The three handlers\<close>

text \<open>
  A query parameter is absent or a string; the path parameter \<open>id\<close> is a string. A
  handler takes the environment and the parameters and returns its response, the
  environment it leaves (the handle is cached after a successful connection) and the
  operations it issued, in order. Every \<open>throw\<close> inside a handler's \<open>try\<close> is the
  \<open>Inl\<close> branch of the call that raises it and ends in the \<open>catch\<close> block, \<open>caught\<close>.
\<close>

datatype body = Page nat "doc list" | Document doc | ErrorBody string

datatype response = Response nat body

record outcome =
  response :: response
  after :: world
  issued :: "store_op list"

definition caught :: "js_error \<Rightarrow> world \<Rightarrow> store_op list \<Rightarrow> outcome" where
  \<comment> \<open>the \<open>catch\<close> block: \<open>res.status(500).json({ error: String(err) })\<close>\<close>
  "caught err w ops =
     \<lparr>response = Response 500 (ErrorBody (String_of_error err)), after = w, issued = ops\<rparr>"

definition replied :: "response \<Rightarrow> world \<Rightarrow> store_op list \<Rightarrow> outcome" where
  "replied r w ops = \<lparr>response = r, after = w, issued = ops\<rparr>"

definition card_projection :: projection where
  "card_projection =
     Some [''brand_name'', ''composition'', ''composition_key'', ''manufacturer'',
           ''dosage_form'', ''price'']"

definition search_page :: "string option \<Rightarrow> jsnum" where
  "search_page page_param = Math_max (Num 0) (parseInt (or_default page_param ''0''))"

definition search_size :: "string option \<Rightarrow> jsnum" where
  "search_size size_param =
     Math_min (Num 200) (Math_max (Num 1) (parseInt (or_default size_param ''20'')))"

definition alternatives_size :: "string option \<Rightarrow> jsnum" where
  "alternatives_size size_param =
     Math_min (Num 500) (Math_max (Num 1) (parseInt (or_default size_param ''100'')))"

definition search ::
  "world \<Rightarrow> string option \<Rightarrow> string option \<Rightarrow> string option \<Rightarrow> outcome" where
  "search w q_param page_param size_param =
     (case connectToDb w of
        (Inl err, w', ops) \<Rightarrow> caught err w' ops
      | (Inr _, w', ops) \<Rightarrow>
         (let q = trim (or_default q_param []);
              page = search_page page_param;
              size = search_size size_param
          in if q = [] then replied (Response 200 (Page 0 [])) w' ops
             else
               (let skip = js_times page size; limit = size
                in case RegExp (regex_engine w') (''^'' @ q) ''i'' of
                     Inl err \<Rightarrow> caught err w' ops
                   | Inr regex \<Rightarrow>
                      (let query = BrandNameRegex regex;
                           ops' = ops @ [Find query card_projection skip limit]
                       in case find_toArray w' query card_projection skip limit of
                            Inl err \<Rightarrow> caught err w' ops'
                          | Inr docs \<Rightarrow>
                             replied (Response 200 (Page (length docs) docs)) w' ops'))))"

definition id_key :: "world \<Rightarrow> string \<Rightarrow> bson" where
  \<comment> \<open>\<open>ObjectId.isValid(id) ? new ObjectId(id) : id\<close>\<close>
  "id_key w ident = (if ObjectId_isValid w ident then new_ObjectId w ident else BStr ident)"

definition get_by_id :: "world \<Rightarrow> string \<Rightarrow> outcome" where
  "get_by_id w ident =
     (case connectToDb w of
        (Inl err, w', ops) \<Rightarrow> caught err w' ops
      | (Inr _, w', ops) \<Rightarrow>
         (let query = IdEq (id_key w' ident); ops' = ops @ [FindOne query None]
          in case findOne w' query None of
               Inl err \<Rightarrow> caught err w' ops'
             | Inr None \<Rightarrow> replied (Response 404 (ErrorBody ''Not found'')) w' ops'
             | Inr (Some d) \<Rightarrow> replied (Response 200 (Document d)) w' ops'))"

definition alternatives ::
  "world \<Rightarrow> string \<Rightarrow> string option \<Rightarrow> string option \<Rightarrow> outcome" where
  "alternatives w ident page_param size_param =
     (case connectToDb w of
        (Inl err, w', ops) \<Rightarrow> caught err w' ops
      | (Inr _, w', ops) \<Rightarrow>
         (let page = search_page page_param;
              size = alternatives_size size_param;
              query = IdEq (id_key w' ident);
              keyOnly = Some [''composition_key''];
              ops1 = ops @ [FindOne query keyOnly]
          in case findOne w' query keyOnly of
               Inl err \<Rightarrow> caught err w' ops1
             | Inr None \<Rightarrow> replied (Response 200 (Page 0 [])) w' ops1
             | Inr (Some base) \<Rightarrow>
                (case field base ''composition_key'' of
                   None \<Rightarrow> replied (Response 200 (Page 0 [])) w' ops1
                 | Some k \<Rightarrow>
                    if \<not> truthy k then replied (Response 200 (Page 0 [])) w' ops1
                    else
                      (let sameKey = KeyEqIdNe k (doc_id base);
                           skip = js_times page size;
                           ops2 = ops1 @ [Find sameKey card_projection skip size]
                       in case find_toArray w' sameKey card_projection skip size of
                            Inl err \<Rightarrow> caught err w' ops2
                          | Inr docs \<Rightarrow>
                             replied (Response 200 (Page (length docs) docs)) w' ops2))))"

section \<open>A client that pages through the search results\<close>

text \<open>
  \<open>decimal\<close> writes a page number as the request carries it; \<open>concat_pages\<close> sends one
  search request per page number, each against the state the previous one left, and
  appends the documents of the answers; \<open>single_page\<close> sends one request for page 0.
  Both give \<open>None\<close> when an answer is not a 200 page. \<open>search_matches\<close> is what the claim
  about paging calls the matching set: the records the query of the search handler
  selects, none for a blank \<open>q\<close>, and the error when \<open>new RegExp\<close> throws.
\<close>

fun decimal :: "nat \<Rightarrow> string" where
  "decimal n =
     (if n < 10 then [char_of (48 + n)] else decimal (n div 10) @ [char_of (48 + n mod 10)])"

declare decimal.simps [simp del]

fun documents :: "response \<Rightarrow> doc list option" where
  "documents (Response status (Page n docs)) = (if status = 200 then Some docs else None)"
| "documents (Response status other) = None"

fun concat_pages :: "world \<Rightarrow> string option \<Rightarrow> string \<Rightarrow> nat list \<Rightarrow> doc list option" where
  "concat_pages w q_param size_text [] = Some []"
| "concat_pages w q_param size_text (i # pages) =
     (let out = search w q_param (Some (decimal i)) (Some size_text)
      in case documents (response out) of
           None \<Rightarrow> None
         | Some docs \<Rightarrow>
            map_option (\<lambda>rest. docs @ rest) (concat_pages (after out) q_param size_text pages))"

definition single_page :: "world \<Rightarrow> string option \<Rightarrow> string \<Rightarrow> doc list option" where
  "single_page w q_param size_text =
     documents (response (search w q_param (Some ''0'') (Some size_text)))"

definition search_matches :: "world \<Rightarrow> string option \<Rightarrow> js_error + doc list" where
  "search_matches w q_param =
     (let q = trim (or_default q_param [])
      in if q = [] then Inr []
         else case RegExp (regex_engine w) (''^'' @ q) ''i'' of
                Inl err \<Rightarrow> Inl err
              | Inr regex \<Rightarrow>
                 Inr (filter (matches (regex_engine w) (BrandNameRegex regex)) (collection w)))"

section \<open>The claims' own words\<close>

text \<open>
  The spec's words for the search match, "begins with \<open>q\<close>, compared
  case-insensitively", as a definition of its own: \<open>q\<close> lower-cased is a prefix of the
  name lower-cased. The handler's regular expression compares upper-cased characters
  instead; the two are set against each other below.
\<close>

definition toLowerCase :: "char \<Rightarrow> char" where
  "toLowerCase c =
     (let n = of_char c :: nat
      in if (65 \<le> n \<and> n \<le> 90) \<or> (192 \<le> n \<and> n \<le> 222 \<and> n \<noteq> 215)
         then char_of (n + 32) else c)"

definition begins_with_ci :: "string \<Rightarrow> string \<Rightarrow> bool" where
  "begins_with_ci q s = prefix (map toLowerCase q) (map toLowerCase s)"

text \<open>
  A record as the search and the alternatives handler return it: its \<open>_id\<close> and, of its
  fields, the six named in the projection of index.js, written out.
\<close>

definition card :: "doc \<Rightarrow> doc" where
  "card d =
     \<lparr>doc_id = doc_id d,
      doc_fields =
        filter (\<lambda>kv. fst kv = ''brand_name'' \<or> fst kv = ''composition'' \<or>
                      fst kv = ''composition_key'' \<or> fst kv = ''manufacturer'' \<or>
                      fst kv = ''dosage_form'' \<or> fst kv = ''price'')
          (doc_fields d)\<rparr>"

section \<open>Sample data\<close>

text \<open>
  A driver that takes 24 hexadecimal digits for a native identifier, a store that reads
  an unusual skip or limit as 0, an engine that rejects every pattern beyond the parsed
  ones (the sample requests use parsed patterns and, for the failure of \<open>new RegExp\<close>,
  the unbalanced \<open>(\<close>, which no engine accepts), and a small collection: three
  medicines that share a composition key, one without a key and two whose key is the
  empty string.
\<close>

definition read_as_zero :: "jsnum \<Rightarrow> js_error + int" where
  "read_as_zero x = Inr 0"

definition parsed_patterns_only :: regex_engine where
  "parsed_patterns_only pattern flags =
     Inl (JsError ''SyntaxError'' (''Invalid regular expression: /'' @ pattern @ ''/''))"

definition driver_isValid :: "string \<Rightarrow> bool" where
  "driver_isValid s = (length s = 24 \<and> list_all (radix_digit 16) s)"

definition driver_ObjectId :: "string \<Rightarrow> bson" where
  "driver_ObjectId s = BOid (map toLowerCase s)"

definition paracetamol :: doc where
  "paracetamol = \<lparr>doc_id = BOid ''64b0c0ffee0000000000000a'', doc_fields =
     [(''brand_name'', BStr ''Paracetamol''), (''composition_key'', BStr ''paracetamol-500''),
      (''price'', BNum (Num 20)), (''stock'', BNum (Num 7))]\<rparr>"

definition calpol :: doc where
  "calpol = \<lparr>doc_id = BStr ''calpol'', doc_fields =
     [(''brand_name'', BStr ''Calpol''), (''composition_key'', BStr ''paracetamol-500''),
      (''price'', BNum (Num 35)), (''stock'', BNum (Num 0))]\<rparr>"

definition crocin :: doc where
  "crocin = \<lparr>doc_id = BStr ''crocin'', doc_fields =
     [(''brand_name'', BStr ''Crocin''), (''composition_key'', BStr ''paracetamol-500''),
      (''price'', BNum (Num 30))]\<rparr>"

definition herbal :: doc where
  "herbal = \<lparr>doc_id = BStr ''herbal'', doc_fields = [(''brand_name'', BStr ''Paramint'')]\<rparr>"

definition mystery :: doc where
  "mystery = \<lparr>doc_id = BStr ''mystery'', doc_fields =
     [(''brand_name'', BStr ''Paradox''), (''composition_key'', BStr [])]\<rparr>"

definition enigma :: doc where
  "enigma = \<lparr>doc_id = BStr ''enigma'', doc_fields =
     [(''brand_name'', BStr ''Enigma''), (''composition_key'', BStr [])]\<rparr>"

text \<open>The sample records as the search and the alternatives handler return them.\<close>

definition paracetamol_card :: doc where
  "paracetamol_card = \<lparr>doc_id = BOid ''64b0c0ffee0000000000000a'', doc_fields =
     [(''brand_name'', BStr ''Paracetamol''), (''composition_key'', BStr ''paracetamol-500''),
      (''price'', BNum (Num 20))]\<rparr>"

definition calpol_card :: doc where
  "calpol_card = \<lparr>doc_id = BStr ''calpol'', doc_fields =
     [(''brand_name'', BStr ''Calpol''), (''composition_key'', BStr ''paracetamol-500''),
      (''price'', BNum (Num 35))]\<rparr>"

definition pharmacy :: world where
  "pharmacy = \<lparr>cached = False, connect_fails = False,
     collection = [paracetamol, calpol, crocin, herbal, mystery],
     findOne_error = None, find_error = None, read_unusual = read_as_zero,
     regex_engine = parsed_patterns_only, ObjectId_isValid = driver_isValid, new_ObjectId = driver_ObjectId\<rparr>"

definition pharmacy_down :: world where
  "pharmacy_down = pharmacy\<lparr>connect_fails := True\<rparr>"

definition blank_keys :: world where
  "blank_keys = pharmacy\<lparr>collection := [mystery, enigma]\<rparr>"

definition network_error :: js_error where
  "network_error = JsError ''MongoNetworkError'' ''connection closed''"

definition pharmacy_lost :: world where
  "pharmacy_lost = pharmacy\<lparr>cached := True, findOne_error := Some network_error,
     find_error := Some network_error\<rparr>"

definition pharmacy_find_lost :: world where
  "pharmacy_find_lost = pharmacy\<lparr>cached := True, find_error := Some network_error\<rparr>"

text \<open>A collection of 201 records whose names all begin with "A".\<close>

definition bulk :: "doc list" where
  "bulk = map (\<lambda>n. \<lparr>doc_id = BNum (Num (int n)), doc_fields = [(''brand_name'', BStr ''Aspirin'')]\<rparr>)
            [0..<201]"

definition warehouse :: world where
  "warehouse = pharmacy\<lparr>collection := bulk\<rparr>"

section \<open>Code points\<close>

text \<open>The case mappings and the decimal digits on code points, for the proofs below.\<close>

definition upper_code :: "nat \<Rightarrow> nat" where
  "upper_code n = (if (97 \<le> n \<and> n \<le> 122) \<or> (224 \<le> n \<and> n \<le> 254 \<and> n \<noteq> 247) then n - 32 else n)"

definition lower_code :: "nat \<Rightarrow> nat" where
  "lower_code n = (if (65 \<le> n \<and> n \<le> 90) \<or> (192 \<le> n \<and> n \<le> 222 \<and> n \<noteq> 215) then n + 32 else n)"

definition is_digit10 :: "char \<Rightarrow> bool" where
  "is_digit10 c = (48 \<le> (of_char c :: nat) \<and> (of_char c :: nat) \<le> 57)"

section \<open>Numbers\<close>

lemma round_double_exact: "\<bar>n\<bar> < 2 ^ 53 \<Longrightarrow> round_double n = Num n"
  by (simp add: round_double_def)

lemma round_double_nonneg:
  assumes "0 \<le> n" and "round_double n = Num v"
  shows "0 \<le> v"
proof (cases "\<bar>n\<bar> < 2 ^ 53")
  case True
  with assms show ?thesis by (simp add: round_double_def)
next
  case False
  define e where "e = bit_length \<bar>n\<bar> - 53"
  define q where "q = \<bar>n\<bar> div 2 ^ e"
  have q: "0 \<le> q" by (simp add: q_def pos_imp_zdiv_nonneg_iff)
  from assms False have "v = (q + 1) * 2 ^ e \<or> v = q * 2 ^ e"
    by (auto simp: round_double_def Let_def e_def q_def split: if_splits)
  with q show ?thesis by auto
qed

lemmas parseInt_eval = parseInt_def isWhiteSpace_def radix_digit_def digit_value_def round_double_def

lemma clamp_of_number:
  "Math_min (Num hi) (Math_max (Num lo) (Num n)) = Num (min hi (max lo n))"
  by simp

lemma clamp_cases:
  assumes "Math_min (Num hi) (Math_max (Num lo) x) = Num n" and "lo \<le> hi"
  shows "lo \<le> n \<and> n \<le> hi"
  using assms by (cases x) auto

lemma search_size_of_number:
  assumes "parseInt (or_default size_param ''20'') = Num n"
  shows "search_size size_param = Num (min 200 (max 1 n))"
  using assms by (simp add: search_size_def)

lemma alternatives_size_of_number:
  assumes "parseInt (or_default size_param ''100'') = Num n"
  shows "alternatives_size size_param = Num (min 500 (max 1 n))"
  using assms by (simp add: alternatives_size_def)

lemma search_size_range:
  assumes "search_size size_param = Num n"
  shows "1 \<le> n \<and> n \<le> 200"
  using clamp_cases [of 200 1 "parseInt (or_default size_param ''20'')" n] assms
  by (simp add: search_size_def)

lemma alternatives_size_range:
  assumes "alternatives_size size_param = Num n"
  shows "1 \<le> n \<and> n \<le> 500"
  using clamp_cases [of 500 1 "parseInt (or_default size_param ''100'')" n] assms
  by (simp add: alternatives_size_def)

lemma search_page_range:
  assumes "search_page page_param = Num p"
  shows "0 \<le> p"
  using assms by (cases "parseInt (or_default page_param ''0'')") (auto simp: search_page_def)

lemma size_defaults:
  "search_size None = Num 20 \<and> search_size (Some []) = Num 20 \<and>
   alternatives_size None = Num 100 \<and> alternatives_size (Some []) = Num 100"
  by (simp add: search_size_def alternatives_size_def or_default_def parseInt_eval)

lemma size_examples:
  "search_size (Some ''0'') = Num 1 \<and> search_size (Some ''9999'') = Num 200 \<and>
   alternatives_size (Some ''0'') = Num 1 \<and> alternatives_size (Some ''9999'') = Num 500"
  by (simp add: search_size_def alternatives_size_def or_default_def parseInt_eval)

lemma skip_nonneg:
  assumes "js_times x (Num s) = Num k" and "\<And>a. x = Num a \<Longrightarrow> 0 \<le> a" and "0 \<le> s"
  shows "0 \<le> k"
proof (cases x)
  case (Num p)
  then have "0 \<le> p" by (rule assms(2))
  with assms(3) have "0 \<le> p * s" by simp
  moreover from Num assms(1) have "round_double (p * s) = Num k" by simp
  ultimately show ?thesis by (rule round_double_nonneg)
next
  case NaN
  with assms show ?thesis by simp
next
  case NegInfinity
  with assms show ?thesis by (simp add: scale_infinity_def split: if_splits)
next
  case PosInfinity
  with assms show ?thesis by (simp add: scale_infinity_def split: if_splits)
qed

section \<open>Connection and store: basic facts\<close>

lemma connectToDb_ok:
  assumes "cached w \<or> \<not> connect_fails w"
  shows "connectToDb w = (Inr (), w\<lparr>cached := True\<rparr>, if cached w then [] else [Connect])"
  using assms by (auto simp: connectToDb_def)

lemma connectToDb_failed:
  assumes "\<not> cached w" and "connect_fails w"
  shows "connectToDb w = (Inl (JsError ''Error'' ''Failed to connect to database''), w, [Connect])"
  using assms by (simp add: connectToDb_def)

lemma findOne_cached [simp]: "findOne (w\<lparr>cached := b\<rparr>) f p = findOne w f p"
  by (simp add: findOne_def split: option.splits)

lemma read_count_cached [simp]: "read_count (w\<lparr>cached := b\<rparr>) x = read_count w x"
  by (simp add: read_count_def split: jsnum.splits)

lemma find_toArray_cached [simp]: "find_toArray (w\<lparr>cached := b\<rparr>) f p s l = find_toArray w f p s l"
  by (simp add: find_toArray_def split: option.splits sum.splits)

lemma id_key_cached [simp]: "id_key (w\<lparr>cached := b\<rparr>) i = id_key w i"
  by (simp add: id_key_def)

lemma matches_IdEq: "matches engine (IdEq k) = (\<lambda>d. doc_id d = k)"
  by (rule ext) simp

lemma matches_KeyEqIdNe:
  "matches engine (KeyEqIdNe k i) = (\<lambda>d. field d ''composition_key'' = Some k \<and> doc_id d \<noteq> i)"
  by (rule ext) simp

lemma project_doc_id [simp]: "doc_id (project p d) = doc_id d"
  by (simp add: project_def split: option.splits)

lemma project_card: "project card_projection d = card d"
  by (auto simp: project_def card_projection_def card_def intro: filter_cong)

lemma map_of_filter_keys:
  "name \<in> set names \<Longrightarrow> map_of (filter (\<lambda>kv. fst kv \<in> set names) xs) name = map_of xs name"
  by (induction xs) auto

lemma field_project_kept:
  "name \<in> set names \<Longrightarrow> field (project (Some names) d) name = field d name"
  by (simp add: field_def project_def map_of_filter_keys)

lemma field_card_composition_key: "field (card d) ''composition_key'' = field d ''composition_key''"
  unfolding project_card [symmetric] card_projection_def by (rule field_project_kept) simp

lemma doc_id_card [simp]: "doc_id (card d) = doc_id d"
  by (simp add: card_def)

lemma findOne_ok:
  "findOne_error w = None \<Longrightarrow>
   findOne w (IdEq k) p = Inr (map_option (project p) (find (\<lambda>d. doc_id d = k) (collection w)))"
  by (simp add: findOne_def matches_IdEq)

lemma findOne_rejects: "findOne_error w = Some e \<Longrightarrow> findOne w f p = Inl e"
  by (simp add: findOne_def)

lemma find_toArray_rejects: "find_error w = Some e \<Longrightarrow> find_toArray w f p s l = Inl e"
  by (simp add: find_toArray_def)

lemma read_count_number: "- (2 ^ 63) \<le> n \<Longrightarrow> n < 2 ^ 63 \<Longrightarrow> read_count w (Num n) = Inr n"
  by (simp add: read_count_def)

lemma find_toArray_numbers:
  assumes "find_error w = None" and "0 \<le> sk" and "sk < 2 ^ 63" and "1 \<le> l" and "l < 2 ^ 63"
  shows "find_toArray w f pr (Num sk) (Num l) =
           Inr (map (project pr)
                 (take (nat l) (drop (nat sk) (filter (matches (regex_engine w) f) (collection w)))))"
  using assms by (simp add: find_toArray_def read_count_number apply_limit_def)

lemma window_subseq: "subseq (apply_limit l (drop k (filter P xs))) xs"
proof -
  have "sublist (apply_limit l (drop k (filter P xs))) (drop k (filter P xs))"
    by (simp add: apply_limit_def)
  then have "subseq (apply_limit l (drop k (filter P xs))) (drop k (filter P xs))"
    by (rule sublist_imp_subseq)
  moreover have "subseq (drop k (filter P xs)) (filter P xs)"
    by (rule sublist_imp_subseq) simp
  moreover have "subseq (filter P xs) xs" by simp
  ultimately show ?thesis by (meson subseq_order.order_trans)
qed

lemma apply_limit_subset: "set (apply_limit l xs) \<subseteq> set xs"
  by (simp add: apply_limit_def set_take_subset)

lemma find_toArray_window:
  assumes "find_toArray w f pr skip limit = Inr docs"
  shows "\<exists>s l. read_count w limit = Inr l \<and>
           docs = map (project pr)
                    (apply_limit l (drop s (filter (matches (regex_engine w) f) (collection w))))"
proof (cases "find_error w")
  case (Some e)
  with assms show ?thesis by (simp add: find_toArray_def)
next
  case None
  show ?thesis
  proof (cases "read_count w skip")
    case (Inl e)
    with assms None show ?thesis by (simp add: find_toArray_def)
  next
    case s: (Inr s)
    show ?thesis
    proof (cases "read_count w limit")
      case (Inl e)
      with assms None s show ?thesis by (simp add: find_toArray_def)
    next
      case l: (Inr l)
      with assms None s have
        "docs = map (project pr)
           (apply_limit l (drop (nat s) (filter (matches (regex_engine w) f) (collection w))))"
        by (simp add: find_toArray_def split: if_splits)
      with l show ?thesis by blast
    qed
  qed
qed

lemma find_toArray_subseq:
  assumes "find_toArray w f p skip limit = Inr docs"
  shows "subseq docs (map (project p) (collection w))"
proof -
  from find_toArray_window [OF assms] obtain s l where
    "docs = map (project p)
       (apply_limit l (drop s (filter (matches (regex_engine w) f) (collection w))))"
    by blast
  then show ?thesis by (simp add: window_subseq subseq_map)
qed

lemma find_toArray_length:
  assumes "find_toArray w f p skip (Num n) = Inr docs" and "1 \<le> n" and "n < 2 ^ 63"
  shows "int (length docs) \<le> n"
proof -
  from find_toArray_window [OF assms(1)] obtain s l where
    l: "read_count w (Num n) = Inr l" and
    docs: "docs = map (project p)
       (apply_limit l (drop s (filter (matches (regex_engine w) f) (collection w))))"
    by blast
  from l assms(2,3) have "l = n" by (simp add: read_count_def)
  with docs assms(2) show ?thesis by (simp add: apply_limit_def)
qed

lemma window_members:
  assumes "d \<in> set (map g (apply_limit l (drop s (filter P xs))))"
  shows "\<exists>d0 \<in> set xs. P d0 \<and> d = g d0"
proof -
  from assms obtain d0 where d0: "d0 \<in> set (apply_limit l (drop s (filter P xs)))" "d = g d0"
    by auto
  from d0(1) apply_limit_subset have "d0 \<in> set (drop s (filter P xs))"
    by (rule subsetD [rotated])
  then have "d0 \<in> set (filter P xs)"
    by (rule in_set_dropD)
  with d0(2) show ?thesis by auto
qed

lemma find_toArray_members:
  assumes "find_toArray w f pr skip limit = Inr docs" and "d \<in> set docs"
  shows "\<exists>d0 \<in> set (collection w). matches (regex_engine w) f d0 \<and> d = project pr d0"
proof -
  from find_toArray_window [OF assms(1)] obtain s l where
    "docs = map (project pr)
       (apply_limit l (drop s (filter (matches (regex_engine w) f) (collection w))))"
    by blast
  with assms(2) have
    "d \<in> set (map (project pr)
       (apply_limit l (drop s (filter (matches (regex_engine w) f) (collection w)))))"
    by (simp only:)
  then show ?thesis by (rule window_members)
qed

section \<open>The handlers once the connection is settled\<close>

lemma search_connected:
  assumes "cached w \<or> \<not> connect_fails w"
  shows "search w q_param page_param size_param =
     (let w' = w\<lparr>cached := True\<rparr>;
          ops = (if cached w then [] else [Connect]);
          q = trim (or_default q_param []);
          size = search_size size_param;
          skip = js_times (search_page page_param) size
      in if q = [] then replied (Response 200 (Page 0 [])) w' ops
         else case RegExp (regex_engine w) (''^'' @ q) ''i'' of
                Inl err \<Rightarrow> caught err w' ops
              | Inr regex \<Rightarrow>
                 (case find_toArray w (BrandNameRegex regex) card_projection skip size of
                    Inl err \<Rightarrow>
                      caught err w' (ops @ [Find (BrandNameRegex regex) card_projection skip size])
                  | Inr docs \<Rightarrow>
                      replied (Response 200 (Page (length docs) docs)) w'
                        (ops @ [Find (BrandNameRegex regex) card_projection skip size])))"
  by (simp add: search_def connectToDb_ok [OF assms] Let_def split: sum.splits)

lemma search_disconnected:
  assumes "\<not> cached w" and "connect_fails w"
  shows "search w q_param page_param size_param =
           caught (JsError ''Error'' ''Failed to connect to database'') w [Connect]"
  by (simp add: search_def connectToDb_failed [OF assms])

lemma alternatives_connected:
  assumes "cached w \<or> \<not> connect_fails w" and "findOne_error w = None"
  shows "alternatives w ident page_param size_param =
     (let w' = w\<lparr>cached := True\<rparr>;
          ops1 = (if cached w then [] else [Connect]) @
                 [FindOne (IdEq (id_key w ident)) (Some [''composition_key''])]
      in case find (\<lambda>d. doc_id d = id_key w ident) (collection w) of
           None \<Rightarrow> replied (Response 200 (Page 0 [])) w' ops1
         | Some b \<Rightarrow>
            (case field b ''composition_key'' of
               None \<Rightarrow> replied (Response 200 (Page 0 [])) w' ops1
             | Some k \<Rightarrow>
                if \<not> truthy k then replied (Response 200 (Page 0 [])) w' ops1
                else
                  (let sameKey = KeyEqIdNe k (doc_id b);
                       size = alternatives_size size_param;
                       skip = js_times (search_page page_param) size;
                       ops2 = ops1 @ [Find sameKey card_projection skip size]
                   in case find_toArray w sameKey card_projection skip size of
                        Inl err \<Rightarrow> caught err w' ops2
                      | Inr docs \<Rightarrow>
                         replied (Response 200 (Page (length docs) docs)) w' ops2)))"
  by (simp add: alternatives_def connectToDb_ok [OF assms(1)] findOne_ok [OF assms(2)] Let_def
      field_project_kept split: option.splits)

lemma alternatives_disconnected:
  assumes "\<not> cached w" and "connect_fails w"
  shows "alternatives w ident page_param size_param =
           caught (JsError ''Error'' ''Failed to connect to database'') w [Connect]"
  by (simp add: alternatives_def connectToDb_failed [OF assms])

lemma get_by_id_disconnected:
  assumes "\<not> cached w" and "connect_fails w"
  shows "get_by_id w ident = caught (JsError ''Error'' ''Failed to connect to database'') w [Connect]"
  by (simp add: get_by_id_def connectToDb_failed [OF assms])

lemma alternatives_findOne_rejects:
  assumes "cached w \<or> \<not> connect_fails w"
    and "findOne w (IdEq (id_key w ident)) (Some [''composition_key'']) = Inl e"
  shows "alternatives w ident page_param size_param =
           caught e (w\<lparr>cached := True\<rparr>)
             ((if cached w then [] else [Connect]) @
              [FindOne (IdEq (id_key w ident)) (Some [''composition_key''])])"
  using assms(2) by (simp add: alternatives_def connectToDb_ok [OF assms(1)])

lemma get_by_id_findOne_rejects:
  assumes "cached w \<or> \<not> connect_fails w"
    and "findOne w (IdEq (id_key w ident)) None = Inl e"
  shows "get_by_id w ident =
           caught e (w\<lparr>cached := True\<rparr>)
             ((if cached w then [] else [Connect]) @ [FindOne (IdEq (id_key w ident)) None])"
  using assms(2) by (simp add: get_by_id_def connectToDb_ok [OF assms(1)])

section \<open>What a returned page holds\<close>

lemma search_page_total:
  assumes "response (search w q_param page_param size_param) = Response 200 (Page t ds)"
  shows "t = length ds \<and> subseq ds (map card (collection w)) \<and>
         (\<forall>n. search_size size_param = Num n \<longrightarrow> int (length ds) \<le> n)"
proof (cases "cached w \<or> \<not> connect_fails w")
  case False
  then show ?thesis
    using assms by (auto simp: search_disconnected caught_def)
next
  case True
  note run = search_connected [OF True, of q_param page_param size_param]
  show ?thesis
  proof (cases "ds = []")
    case empty: True
    with assms have "t = 0"
      by (auto simp: run Let_def replied_def caught_def split: sum.splits if_splits)
    moreover have "0 \<le> n" if "search_size size_param = Num n" for n
      using search_size_range [OF that] by simp
    ultimately show ?thesis using empty by simp
  next
    case False
    with assms obtain regex where
      found: "find_toArray w (BrandNameRegex regex) card_projection
                (js_times (search_page page_param) (search_size size_param))
                (search_size size_param) = Inr ds"
      and t: "t = length ds"
      by (auto simp: run Let_def replied_def caught_def split: sum.splits if_splits)
    have "int (length ds) \<le> n" if n: "search_size size_param = Num n" for n
      using find_toArray_length [of w _ _ _ n ds] found search_size_range [OF n]
      by (simp add: n)
    moreover have "subseq ds (map card (collection w))"
      using find_toArray_subseq [OF found] by (simp add: project_card [abs_def])
    ultimately show ?thesis using t by simp
  qed
qed

lemma alternatives_page_total:
  assumes "response (alternatives w ident page_param size_param) = Response 200 (Page t ds)"
  shows "t = length ds \<and> subseq ds (map card (collection w)) \<and>
         (\<forall>n. alternatives_size size_param = Num n \<longrightarrow> int (length ds) \<le> n)"
proof (cases "cached w \<or> \<not> connect_fails w")
  case False
  then show ?thesis
    using assms by (auto simp: alternatives_disconnected caught_def)
next
  case True
  show ?thesis
  proof (cases "findOne_error w")
    case (Some e)
    then have "findOne w (IdEq (id_key w ident)) (Some [''composition_key'']) = Inl e"
      by (simp add: findOne_def)
    from alternatives_findOne_rejects [OF True this] assms show ?thesis
      by (simp add: caught_def)
  next
    case None
    note run = alternatives_connected [OF True None, of ident page_param size_param]
    show ?thesis
    proof (cases "ds = []")
      case True
      with assms have "t = 0"
        by (auto simp: run Let_def replied_def caught_def split: option.splits sum.splits if_splits)
      moreover have "0 \<le> n" if "alternatives_size size_param = Num n" for n
        using alternatives_size_range [OF that] by simp
      ultimately show ?thesis using True by simp
    next
      case False
      with assms obtain k i where
        found: "find_toArray w (KeyEqIdNe k i) card_projection
                  (js_times (search_page page_param) (alternatives_size size_param))
                  (alternatives_size size_param) = Inr ds"
        and t: "t = length ds"
        by (auto simp: run Let_def replied_def caught_def
            split: option.splits sum.splits if_splits)
      have "int (length ds) \<le> n" if n: "alternatives_size size_param = Num n" for n
        using find_toArray_length [of w _ _ _ n ds] found alternatives_size_range [OF n]
        by (simp add: n)
      moreover have "subseq ds (map card (collection w))"
        using find_toArray_subseq [OF found] by (simp add: project_card [abs_def])
      ultimately show ?thesis using t by simp
    qed
  qed
qed

section \<open>Regular expressions: facts\<close>

lemma split_on_absent: "sep \<notin> set s \<Longrightarrow> split_on sep s = [s]"
  by (induction s) auto

lemma parse_term_plain: "c \<notin> set syntax_characters \<Longrightarrow> parse_term c = Some (PatternChar c)"
  by (auto simp: parse_term_def syntax_characters_def)

lemma parse_plain:
  "set q \<inter> set syntax_characters = {} \<Longrightarrow> those (map parse_term q) = Some (map PatternChar q)"
  by (induction q) (auto simp: parse_term_plain)

lemma RegExp_plain:
  assumes "set q \<inter> set syntax_characters = {}"
  shows "RegExp engine (''^'' @ q) ''i'' = Inr (Regexp [LineStart # map PatternChar q] True)"
proof -
  have bar: "CHR ''|'' \<notin> set (''^'' @ q)"
    using assms by (auto simp: syntax_characters_def)
  have "those (map parse_term (''^'' @ q)) = Some (LineStart # map PatternChar q)"
    using parse_plain [OF assms] by (simp add: parse_term_def)
  then show ?thesis
    by (simp add: RegExp_def parse_pattern_def split_on_absent [OF bar] del: append.simps)
qed

lemma match_here_chars:
  "match_here ic (map PatternChar q) b s = prefix (map (Canonicalize ic) q) (map (Canonicalize ic) s)"
proof (induction q arbitrary: s b)
  case Nil
  then show ?case by simp
next
  case (Cons c q)
  then show ?case by (cases s) auto
qed

lemma match_from_anchored_later:
  "match_from ic [LineStart # ts] False s = False"
  by (induction s) auto

lemma regex_test_anchored:
  "regex_test engine (Regexp [LineStart # map PatternChar q] True) s =
     prefix (map toUpperCase q) (map toUpperCase s)"
proof (cases s)
  case Nil
  then show ?thesis
    by (simp add: match_here_chars Canonicalize_def [abs_def])
next
  case (Cons d s')
  then show ?thesis
    by (simp add: match_here_chars match_from_anchored_later Canonicalize_def [abs_def])
qed

lemma upper_code_eq:
  "upper_code n = upper_code m \<longleftrightarrow>
     n = m \<or> (upper_code n \<noteq> n \<and> m + 32 = n) \<or> (upper_code m \<noteq> m \<and> n + 32 = m)"
  unfolding upper_code_def by (simp split: if_splits) arith

lemma lower_code_eq:
  "lower_code n = lower_code m \<longleftrightarrow>
     n = m \<or> (lower_code n \<noteq> n \<and> m = n + 32) \<or> (lower_code m \<noteq> m \<and> n = m + 32)"
  unfolding lower_code_def by (simp split: if_splits) arith

lemma case_shift: "(upper_code n \<noteq> n \<and> m + 32 = n) \<longleftrightarrow> (lower_code m \<noteq> m \<and> n = m + 32)"
  unfolding upper_code_def lower_code_def by (simp split: if_splits) arith

lemma code_classes: "upper_code n = upper_code m \<longleftrightarrow> lower_code n = lower_code m"
  unfolding upper_code_eq lower_code_eq using case_shift [of n m] case_shift [of m n] by blast

lemma of_char_lt_256: "(of_char c :: nat) < 256"
  using of_char_mod_256 [of c, where ?'a = nat]
  by (metis mod_less_divisor zero_less_numeral)

lemma toUpperCase_code: "toUpperCase c = char_of (upper_code (of_char c))"
  by (simp add: toUpperCase_def upper_code_def Let_def)

lemma toLowerCase_code: "toLowerCase c = char_of (lower_code (of_char c))"
  by (simp add: toLowerCase_def lower_code_def Let_def)

lemma upper_code_lt: "n < 256 \<Longrightarrow> upper_code n < 256"
  by (auto simp: upper_code_def)

lemma lower_code_lt: "n < 256 \<Longrightarrow> lower_code n < 256"
  by (auto simp: lower_code_def)

lemma char_of_eq_iff_lt: "x < 256 \<Longrightarrow> y < 256 \<Longrightarrow> (char_of x = char_of y) = (x = (y::nat))"
  by (simp add: char_of_eq_iff take_bit_eq_mod)

lemma same_case_classes:
  "toUpperCase a = toUpperCase b \<longleftrightarrow> toLowerCase a = toLowerCase b"
proof -
  have a: "(of_char a :: nat) < 256" and b: "(of_char b :: nat) < 256"
    by (rule of_char_lt_256)+
  have "toUpperCase a = toUpperCase b \<longleftrightarrow> upper_code (of_char a) = upper_code (of_char b)"
    by (simp only: toUpperCase_code char_of_eq_iff_lt [OF upper_code_lt [OF a] upper_code_lt [OF b]])
  also have "\<dots> \<longleftrightarrow> lower_code (of_char a) = lower_code (of_char b)"
    by (rule code_classes)
  also have "\<dots> \<longleftrightarrow> toLowerCase a = toLowerCase b"
    by (simp only: toLowerCase_code char_of_eq_iff_lt [OF lower_code_lt [OF a] lower_code_lt [OF b]])
  finally show ?thesis .
qed

lemma prefix_map_classes:
  assumes "\<And>a b. f a = f b \<longleftrightarrow> g a = g b"
  shows "prefix (map f q) (map f s) \<longleftrightarrow> prefix (map g q) (map g s)"
proof (induction q arbitrary: s)
  case Nil
  then show ?case by simp
next
  case (Cons c q)
  then show ?case by (cases s) (auto simp: assms)
qed

lemma regex_test_begins_with:
  "regex_test engine (Regexp [LineStart # map PatternChar q] True) s = begins_with_ci q s"
  unfolding regex_test_anchored begins_with_ci_def
  by (rule prefix_map_classes) (rule same_case_classes)

section \<open>Search on plain text\<close>

lemma search_window:
  assumes conn: "cached w \<or> \<not> connect_fails w" and ok: "find_error w = None"
    and q: "trim (or_default q_param []) \<noteq> []"
    and re: "RegExp (regex_engine w) (''^'' @ trim (or_default q_param [])) ''i'' = Inr regex"
    and size: "search_size size_param = Num s"
    and skip: "js_times (search_page page_param) (Num s) = Num k" "k < 2 ^ 63"
  shows "search w q_param page_param size_param =
     replied
       (Response 200
          (Page (length (take (nat s) (drop (nat k)
                   (filter (matches (regex_engine w) (BrandNameRegex regex)) (collection w)))))
                (map card
                   (take (nat s) (drop (nat k)
                      (filter (matches (regex_engine w) (BrandNameRegex regex)) (collection w)))))))
       (w\<lparr>cached := True\<rparr>)
       ((if cached w then [] else [Connect]) @
        [Find (BrandNameRegex regex) card_projection (Num k) (Num s)])"
proof -
  have range: "1 \<le> s" "s < 2 ^ 63" using search_size_range [OF size] by simp_all
  have nonneg: "0 \<le> k"
  proof (rule skip_nonneg)
    show "js_times (search_page page_param) (Num s) = Num k" by (rule skip(1))
    show "0 \<le> a" if "search_page page_param = Num a" for a
      using that by (rule search_page_range)
    show "0 \<le> s" using range(1) by simp
  qed
  have found: "find_toArray w (BrandNameRegex regex) card_projection (Num k) (Num s) =
      Inr (map card (take (nat s) (drop (nat k)
             (filter (matches (regex_engine w) (BrandNameRegex regex)) (collection w)))))"
    by (simp add: find_toArray_numbers [OF ok nonneg skip(2) range] project_card [abs_def])
  show ?thesis
    using q
    by (simp add: search_connected [OF conn] re size skip(1) found Let_def del: append.simps)
qed

lemma search_plain_text:
  assumes conn: "cached w \<or> \<not> connect_fails w" and ok: "find_error w = None"
    and q: "trim (or_default q_param []) = q" "q \<noteq> []"
    and plain: "set q \<inter> set syntax_characters = {}"
    and size: "search_size size_param = Num s"
    and skip: "js_times (search_page page_param) (Num s) = Num k" "k < 2 ^ 63"
  shows "response (search w q_param page_param size_param) =
     Response 200
       (Page (length (take (nat s) (drop (nat k)
                (filter (\<lambda>d. case field d ''brand_name'' of
                                Some (BStr name) \<Rightarrow> begins_with_ci q name | _ \<Rightarrow> False)
                   (collection w)))))
             (map card
                (take (nat s) (drop (nat k)
                   (filter (\<lambda>d. case field d ''brand_name'' of
                                   Some (BStr name) \<Rightarrow> begins_with_ci q name | _ \<Rightarrow> False)
                      (collection w))))))"
proof -
  let ?re = "Regexp [LineStart # map PatternChar q] True"
  have m: "matches (regex_engine w) (BrandNameRegex ?re) =
      (\<lambda>d. case field d ''brand_name'' of Some (BStr name) \<Rightarrow> begins_with_ci q name | _ \<Rightarrow> False)"
    by (rule ext)
      (simp add: regex_test_begins_with del: regex_test.simps split: option.splits bson.splits)
  have ne: "trim (or_default q_param []) \<noteq> []" using q by simp
  have re: "RegExp (regex_engine w) (''^'' @ trim (or_default q_param [])) ''i'' = Inr ?re"
    unfolding q(1) by (rule RegExp_plain [OF plain])
  show ?thesis
    by (simp only: search_window [OF conn ok ne re size skip] replied_def outcome.simps m)
qed

lemma paracetamol_examples:
  "begins_with_ci ''para'' ''Paracetamol'' \<and> begins_with_ci ''PARA'' ''Paracetamol'' \<and>
   \<not> begins_with_ci ''acet'' ''Paracetamol'' \<and>
   regex_test engine (Regexp [LineStart # map PatternChar ''para''] True) ''Paracetamol'' \<and>
   regex_test engine (Regexp [LineStart # map PatternChar ''PARA''] True) ''Paracetamol'' \<and>
   \<not> regex_test engine (Regexp [LineStart # map PatternChar ''acet''] True) ''Paracetamol''"
  by (simp only: regex_test_begins_with) code_simp

section \<open>Page numbers and paging\<close>

lemma digit_char:
  assumes "d < 10"
  shows "of_char (char_of (48 + d) :: char) = 48 + (d::nat)"
  using assms by simp

lemma digit_char_value: "d < 10 \<Longrightarrow> digit_value (char_of (48 + d)) = Some (d::nat)"
  by (simp add: digit_value_def digit_char)

lemma is_digit10_I: "d < 10 \<Longrightarrow> is_digit10 (char_of (48 + (d::nat)))"
  by (simp add: is_digit10_def digit_char)

lemma digit10_radix: "is_digit10 c \<Longrightarrow> radix_digit 10 c"
  by (auto simp: is_digit10_def radix_digit_def digit_value_def)

lemma digit10_not_space: "is_digit10 c \<Longrightarrow> \<not> isWhiteSpace c"
  by (auto simp: is_digit10_def isWhiteSpace_def)

lemma digit10_not_other:
  assumes "is_digit10 c"
  shows "c \<noteq> CHR ''+''" "c \<noteq> CHR ''-''" "c \<noteq> CHR ''x''" "c \<noteq> CHR ''X''"
  using assms by (auto simp: is_digit10_def)

lemma decimal_digits: "list_all is_digit10 (decimal n)"
proof (induction n rule: decimal.induct)
  case (1 n)
  show ?case
  proof (cases "n < 10")
    case True
    then show ?thesis by (simp add: decimal.simps [of n] is_digit10_I)
  next
    case False
    with 1 show ?thesis by (simp add: decimal.simps [of n] is_digit10_I)
  qed
qed

lemma decimal_nonempty: "decimal n \<noteq> []"
  by (subst decimal.simps) simp

lemma digits_value_snoc:
  "digits_value R acc (cs @ [c]) =
     digits_value R acc cs * int R + (case digit_value c of None \<Rightarrow> 0 | Some v \<Rightarrow> int v)"
  by (induction cs arbitrary: acc) simp_all

lemma digits_value_decimal: "digits_value 10 0 (decimal n) = int n"
proof (induction n rule: decimal.induct)
  case (1 n)
  show ?case
  proof (cases "n < 10")
    case True
    then show ?thesis by (simp add: decimal.simps [of n] digit_char_value)
  next
    case False
    with 1 have "digits_value 10 0 (decimal n) = int (n div 10) * 10 + int (n mod 10)"
      by (simp add: decimal.simps [of n] digits_value_snoc digit_char_value)
    also have "\<dots> = int n"
      by (simp add: zdiv_int zmod_int)
    finally show ?thesis .
  qed
qed

lemma parseInt_digits:
  assumes "s \<noteq> []" and "list_all is_digit10 s"
  shows "parseInt s = round_double (digits_value 10 0 s)"
proof -
  from assms obtain c cs where s: "s = c # cs" by (cases s) auto
  with assms(2) have c: "is_digit10 c" and cs: "list_all is_digit10 cs" by simp_all
  have drop: "dropWhile isWhiteSpace s = s"
    by (simp add: s digit10_not_space [OF c])
  have hex: "take 2 s \<noteq> ''0x''" "take 2 s \<noteq> ''0X''"
    using cs digit10_not_other(3,4) by (cases cs; simp add: s; blast)+
  have all: "takeWhile (radix_digit 10) s = s"
    using assms(2) by (simp add: takeWhile_eq_all_conv list_all_iff digit10_radix)
  show ?thesis
    unfolding parseInt_def drop Let_def
    using digit10_not_other(1,2) [OF c] hex assms(1)
    by (simp add: s [symmetric] all) (simp add: s)
qed

lemma parseInt_decimal: "n < 2 ^ 53 \<Longrightarrow> parseInt (decimal n) = Num (int n)"
  by (simp add: parseInt_digits [OF decimal_nonempty decimal_digits] digits_value_decimal
      round_double_exact)

lemma search_page_decimal: "n < 2 ^ 53 \<Longrightarrow> search_page (Some (decimal n)) = Num (int n)"
  by (simp add: search_page_def or_default_def decimal_nonempty parseInt_decimal)

lemma search_size_one: "search_size (Some ''1'') = Num 1"
  by (simp add: search_size_def or_default_def parseInt_eval)

lemma search_page_zero: "search_page (Some ''0'') = Num 0"
  by (simp add: search_page_def or_default_def parseInt_eval)

lemma take_one_then_rest: "take 1 (drop k xs) @ take n (drop (Suc k) xs) = take (Suc n) (drop k xs)"
proof (cases "drop k xs")
  case Nil
  then have "length xs \<le> k" by simp
  then show ?thesis by simp
next
  case (Cons y ys)
  then have "drop (Suc k) xs = ys"
    by (metis drop_Suc list.sel(3) tl_drop)
  with Cons show ?thesis by simp
qed

lemma concat_pages_window:
  assumes q: "trim (or_default q_param []) \<noteq> []"
    and re: "RegExp engine (''^'' @ trim (or_default q_param [])) ''i'' = Inr regex"
  shows "cached w \<or> \<not> connect_fails w \<Longrightarrow> find_error w = None \<Longrightarrow> regex_engine w = engine \<Longrightarrow>
         k + n \<le> 2 ^ 53 \<Longrightarrow>
         concat_pages w q_param ''1'' [k..<k + n] =
           Some (map card
                  (take n (drop k (filter (matches engine (BrandNameRegex regex)) (collection w)))))"
proof (induction n arbitrary: k w)
  case 0
  then show ?case by simp
next
  case (Suc n)
  let ?M = "filter (matches engine (BrandNameRegex regex)) (collection w)"
  let ?w' = "w\<lparr>cached := True\<rparr>"
  have k: "k < 2 ^ 53" using Suc.prems(4) by simp
  have wide: "int k < 2 ^ 63"
  proof -
    have "int k < 2 ^ 53" using k by (simp add: of_nat_less_numeral_power_cancel_iff)
    also have "\<dots> < (2 ^ 63 :: int)" by simp
    finally show ?thesis .
  qed
  have re': "RegExp (regex_engine w) (''^'' @ trim (or_default q_param [])) ''i'' = Inr regex"
    using re by (simp only: Suc.prems(3))
  have skip: "js_times (search_page (Some (decimal k))) (Num 1) = Num (int k)"
    using k by (simp add: search_page_decimal [OF k] round_double_exact
        of_nat_less_numeral_power_cancel_iff)
  have step: "search w q_param (Some (decimal k)) (Some ''1'') =
      replied (Response 200 (Page (length (take 1 (drop k ?M))) (map card (take 1 (drop k ?M)))))
        ?w' ((if cached w then [] else [Connect]) @
             [Find (BrandNameRegex regex) card_projection (Num (int k)) (Num 1)])"
    using search_window [OF Suc.prems(1) Suc.prems(2) q re' search_size_one skip wide]
    by (simp add: Suc.prems(3))
  have c': "cached ?w' \<or> \<not> connect_fails ?w'" by simp
  have ok': "find_error ?w' = None" using Suc.prems(2) by simp
  have eng': "regex_engine ?w' = engine" using Suc.prems(3) by simp
  have bound': "Suc k + n \<le> 2 ^ 53" using Suc.prems(4) by simp
  have coll: "collection ?w' = collection w" by simp
  have rest: "concat_pages ?w' q_param ''1'' [Suc k..<Suc k + n] =
      Some (map card (take n (drop (Suc k) ?M)))"
    using Suc.IH [OF c' ok' eng' bound'] by (simp only: coll)
  have "[k..<k + Suc n] = k # [Suc k..<Suc k + n]"
    by (simp add: upt_conv_Cons)
  then have "concat_pages w q_param ''1'' [k..<k + Suc n] =
      Some (map card (take 1 (drop k ?M)) @ map card (take n (drop (Suc k) ?M)))"
    by (simp only: concat_pages.simps Let_def step rest replied_def option.case outcome.simps
        documents.simps refl if_True option.map)
  also have "\<dots> = Some (map card (take (Suc n) (drop k ?M)))"
    by (simp only: map_append [symmetric] take_one_then_rest)
  finally show ?case .
qed

lemma concat_pages_all:
  assumes "cached w \<or> \<not> connect_fails w" and "find_error w = None"
    and "trim (or_default q_param []) \<noteq> []"
    and "RegExp (regex_engine w) (''^'' @ trim (or_default q_param [])) ''i'' = Inr regex"
    and "length (filter (matches (regex_engine w) (BrandNameRegex regex)) (collection w)) \<le> 2 ^ 53"
  shows "concat_pages w q_param ''1''
           [0..<length (filter (matches (regex_engine w) (BrandNameRegex regex)) (collection w))] =
         Some (map card (filter (matches (regex_engine w) (BrandNameRegex regex)) (collection w)))"
  using concat_pages_window [OF assms(3,4,1,2) refl, of 0
      "length (filter (matches (regex_engine w) (BrandNameRegex regex)) (collection w))"] assms(5)
  by simp

lemma single_page_window:
  assumes "cached w \<or> \<not> connect_fails w" and "find_error w = None"
    and "trim (or_default q_param []) \<noteq> []"
    and "RegExp (regex_engine w) (''^'' @ trim (or_default q_param [])) ''i'' = Inr regex"
    and "search_size (Some size_text) = Num s"
  shows "single_page w q_param size_text =
         Some (map card
                 (take (nat s) (filter (matches (regex_engine w) (BrandNameRegex regex)) (collection w))))"
proof -
  have skip: "js_times (search_page (Some ''0'')) (Num s) = Num 0"
    by (simp add: search_page_zero round_double_exact)
  show ?thesis
    using search_window [OF assms(1,2,3,4,5) skip]
    by (simp add: single_page_def replied_def)
qed

lemma search_matches_cases:
  assumes "search_matches w q_param = Inr M"
  obtains (blank) "trim (or_default q_param []) = []" "M = []"
  | (pattern) regex where "trim (or_default q_param []) \<noteq> []"
      "RegExp (regex_engine w) (''^'' @ trim (or_default q_param [])) ''i'' = Inr regex"
      "M = filter (matches (regex_engine w) (BrandNameRegex regex)) (collection w)"
  using assms by (auto simp: search_matches_def Let_def split: if_splits sum.splits)

lemma single_page_blank:
  assumes "cached w \<or> \<not> connect_fails w" and "trim (or_default q_param []) = []"
  shows "single_page w q_param size_text = Some []"
  using assms(2) by (simp add: single_page_def search_connected [OF assms(1)] Let_def replied_def)

section \<open>Search match\<close>

text \<open>
  C1. The claim: for every \<open>q\<close> that is non-empty after trimming, the search matches
  exactly the records whose \<open>brand_name\<close> begins with \<open>q\<close>, compared
  case-insensitively. The handler puts \<open>q\<close> unescaped into \<open>new RegExp("^" + q, "i")\<close>.
  For a \<open>q\<close> without regular-expression syntax characters that is the claimed match
  (\<open>search_plain_text\<close>, \<open>paracetamol_examples\<close>); for \<open>q = "x|acet"\<close> the pattern
  \<open>^x|acet\<close> is an alternation whose second branch is not anchored, and the record
  "Paracetamol" is returned although its name does not begin with \<open>x|acet\<close>.
\<close>

theorem search_alternation_matches_inside_the_name:
  "response (search pharmacy (Some ''x|acet'') None None) =
     Response 200 (Page 1 [paracetamol_card]) \<and>
   paracetamol_card = project card_projection paracetamol \<and>
   field paracetamol ''brand_name'' = Some (BStr ''Paracetamol'') \<and>
   \<not> begins_with_ci ''x|acet'' ''Paracetamol'' \<and>
   response (search pharmacy (Some ''acet'') None None) = Response 200 (Page 0 [])"
  by code_simp

section \<open>Effective page size\<close>

text \<open>
  C2. The claim: for every value of the \<open>size\<close> parameter the effective size lies in
  \<open>[1,200]\<close> (search) and \<open>[1,500]\<close> (alternatives). The clamp
  \<open>Math.min(hi, Math.max(1, parseInt(...)))\<close> does that for every parameter that starts
  with a number (\<open>search_size_of_number\<close>, \<open>size_examples\<close>), but a parameter such as
  \<open>size=abc\<close> parses to \<open>NaN\<close>, and \<open>Math.max\<close> and \<open>Math.min\<close> return \<open>NaN\<close> when an
  argument is \<open>NaN\<close>: the effective size is \<open>NaN\<close>, in neither interval.
\<close>

theorem size_not_clamped_when_not_a_number:
  "search_size (Some ''abc'') = NaN \<and> alternatives_size (Some ''abc'') = NaN"
  by (simp add: search_size_def alternatives_size_def or_default_def parseInt_eval)

section \<open>Blank queries\<close>

text \<open>
  C3. The claim: for every query string that is empty or only whitespace, the search
  handler returns \<open>{total: 0, documents: []}\<close> immediately and issues no query to the
  store. The handler awaits \<open>connectToDb()\<close> before it looks at \<open>q\<close>, so on a cold start
  with the store unreachable a blank query is answered with HTTP 500.
\<close>

theorem blank_query_fails_when_connection_fails:
  "response (search pharmacy_down (Some ''  '') None None) =
     Response 500 (ErrorBody ''Error: Failed to connect to database'')"
  by (simp add: search_def connectToDb_def caught_def String_of_error_def pharmacy_down_def pharmacy_def)

text \<open>
  C3, amended: whenever the collection handle is there (cached, or the connection
  attempt succeeds), a blank query is answered with the empty page, and the only
  operation issued is the connection attempt of a cold start: no query reaches the
  store.
\<close>

theorem blank_query_empty_page_once_connected:
  assumes "cached w \<or> \<not> connect_fails w"
    and "trim (or_default q_param []) = []"
  shows "search w q_param page_param size_param =
           \<lparr>response = Response 200 (Page 0 []), after = w\<lparr>cached := True\<rparr>,
                 issued = (if cached w then [] else [Connect])\<rparr>"
  using assms(2) by (simp add: search_def connectToDb_ok [OF assms(1)] replied_def)

theorem blank_query_empty_page_once_connected_witness:
  "search pharmacy (Some ''  '') (Some ''3'') None =
     \<lparr>response = Response 200 (Page 0 []), after = pharmacy\<lparr>cached := True\<rparr>,
           issued = [Connect]\<rparr>"
proof -
  have c: "cached pharmacy \<or> \<not> connect_fails pharmacy" by (simp add: pharmacy_def)
  have b: "trim (or_default (Some ''  '') []) = []"
    by (simp add: trim_def or_default_def isWhiteSpace_def)
  show ?thesis
    using blank_query_empty_page_once_connected [OF c b, of "Some ''3''" None]
    by (simp add: pharmacy_def)
qed

section \<open>Total and documents\<close>

text \<open>
  C4. Every 200 answer of the search and of the alternatives handler, whatever the
  parameters, carries as \<open>total\<close> the number of documents of the page it returns
  (\<open>docs.length\<close>), never more than the effective page size, and so not the count of
  all matching records; the documents are records of the collection cut down to
  \<open>_id\<close> and the six projected fields (\<open>card\<close>), in the collection's order. In the
  example three records match and the page of size 2 has \<open>total\<close> 2.
\<close>

theorem total_is_length_of_returned_page:
  "(response (search w q_param page_param size_param) = Response 200 (Page t ds) \<longrightarrow>
      t = length ds \<and> subseq ds (map card (collection w)) \<and>
      (\<forall>n. search_size size_param = Num n \<longrightarrow> int (length ds) \<le> n)) \<and>
   (response (alternatives w ident page_param size_param) = Response 200 (Page t' ds') \<longrightarrow>
      t' = length ds' \<and> subseq ds' (map card (collection w)) \<and>
      (\<forall>n. alternatives_size size_param = Num n \<longrightarrow> int (length ds') \<le> n))"
  using search_page_total [of w q_param page_param size_param t ds]
    alternatives_page_total [of w ident page_param size_param t' ds']
  by blast

theorem total_is_length_of_returned_page_witness:
  "response (search pharmacy (Some ''para'') None (Some ''2'')) =
     Response 200 (Page 2 [paracetamol_card, herbal]) \<and>
   search_matches pharmacy (Some ''para'') = Inr [paracetamol, herbal, mystery] \<and>
   (2::nat) = length [paracetamol_card, herbal] \<and>
   subseq [paracetamol_card, herbal] (map card (collection pharmacy)) \<and>
   response (alternatives pharmacy ''calpol'' None (Some ''1'')) =
     Response 200 (Page 1 [paracetamol_card]) \<and>
   (1::nat) = length [paracetamol_card] \<and>
   subseq [paracetamol_card] (map card (collection pharmacy))"
proof -
  have s: "response (search pharmacy (Some ''para'') None (Some ''2'')) =
     Response 200 (Page 2 [paracetamol_card, herbal])"
    by code_simp
  have a: "response (alternatives pharmacy ''calpol'' None (Some ''1'')) =
     Response 200 (Page 1 [paracetamol_card])"
    by code_simp
  have n: "search_matches pharmacy (Some ''para'') = Inr [paracetamol, herbal, mystery]"
    by code_simp
  have p1: "(2::nat) = length [paracetamol_card, herbal] \<and>
     subseq [paracetamol_card, herbal] (map card (collection pharmacy))"
    using total_is_length_of_returned_page [THEN conjunct1, of pharmacy "Some ''para''" None
        "Some ''2''" 2 "[paracetamol_card, herbal]"] s
    by blast
  have p2: "(1::nat) = length [paracetamol_card] \<and>
     subseq [paracetamol_card] (map card (collection pharmacy))"
    using total_is_length_of_returned_page [THEN conjunct2, of pharmacy "''calpol''" None
        "Some ''1''" 1 "[paracetamol_card]"] a
    by blast
  show ?thesis
    using s n a p1 p2 by (simp only: simp_thms)
qed

section \<open>Lookup by identifier\<close>

text \<open>
  C5. Whenever the lookup runs (the handle is there and \<open>findOne\<close> does not reject),
  the get-by-id handler looks the record up under \<open>new ObjectId(id)\<close> when the driver
  takes \<open>id\<close> for a native identifier and under the raw string otherwise; it answers
  404 \<open>{error: "Not found"}\<close> when no record has that \<open>_id\<close> and 200 with the whole
  stored record (no projection) when one has. No shape of \<open>id\<close> makes it fail.
\<close>

theorem get_by_id_lookup:
  assumes "cached w \<or> \<not> connect_fails w" and "findOne_error w = None"
  shows "id_key w ident = (if ObjectId_isValid w ident then new_ObjectId w ident else BStr ident) \<and>
         issued (get_by_id w ident) =
           (if cached w then [] else [Connect]) @ [FindOne (IdEq (id_key w ident)) None] \<and>
         response (get_by_id w ident) =
           (case find (\<lambda>d. doc_id d = id_key w ident) (collection w) of
              None \<Rightarrow> Response 404 (ErrorBody ''Not found'')
            | Some d \<Rightarrow> Response 200 (Document d))"
proof -
  have key: "id_key w ident = (if ObjectId_isValid w ident then new_ObjectId w ident else BStr ident)"
    by (simp add: id_key_def)
  have run: "get_by_id w ident =
      (case find (\<lambda>d. doc_id d = id_key w ident) (collection w) of
         None \<Rightarrow> replied (Response 404 (ErrorBody ''Not found'')) (w\<lparr>cached := True\<rparr>)
                   ((if cached w then [] else [Connect]) @ [FindOne (IdEq (id_key w ident)) None])
       | Some d \<Rightarrow> replied (Response 200 (Document d)) (w\<lparr>cached := True\<rparr>)
                   ((if cached w then [] else [Connect]) @ [FindOne (IdEq (id_key w ident)) None]))"
    by (simp add: get_by_id_def connectToDb_ok [OF assms(1)] findOne_ok [OF assms(2)] project_def
        split: option.splits)
  show ?thesis
    using key by (simp add: run replied_def split: option.splits)
qed

theorem get_by_id_lookup_witness:
  "response (get_by_id pharmacy ''64B0C0FFEE0000000000000A'') = Response 200 (Document paracetamol) \<and>
   response (get_by_id pharmacy ''calpol'') = Response 200 (Document calpol) \<and>
   response (get_by_id pharmacy ''64b0c0ffee0000000000000b'') = Response 404 (ErrorBody ''Not found'') \<and>
   response (get_by_id pharmacy ''not-an-id'') = Response 404 (ErrorBody ''Not found'')"
proof -
  have c: "cached pharmacy \<or> \<not> connect_fails pharmacy" by (simp add: pharmacy_def)
  have f: "findOne_error pharmacy = None" by (simp add: pharmacy_def)
  note r = get_by_id_lookup [OF c f, THEN conjunct2, THEN conjunct2]
  have e1: "find (\<lambda>d. doc_id d = id_key pharmacy ''64B0C0FFEE0000000000000A'') (collection pharmacy)
              = Some paracetamol"
    by code_simp
  have e2: "find (\<lambda>d. doc_id d = id_key pharmacy ''calpol'') (collection pharmacy) = Some calpol"
    by code_simp
  have e3: "find (\<lambda>d. doc_id d = id_key pharmacy ''64b0c0ffee0000000000000b'') (collection pharmacy)
              = None"
    by code_simp
  have e4: "find (\<lambda>d. doc_id d = id_key pharmacy ''not-an-id'') (collection pharmacy) = None"
    by code_simp
  show ?thesis
    by (simp only: r e1 e2 e3 e4 option.case simp_thms)
qed

section \<open>Alternatives without a usable base record\<close>

text \<open>
  C6. When the first query finds no base record, or finds one without a
  \<open>composition_key\<close> field, the alternatives handler answers
  \<open>{total: 0, documents: []}\<close> and the only query issued is that \<open>findOne\<close>: the second
  query is not run, whatever else the collection holds.
\<close>

theorem alternatives_empty_without_base_or_key:
  assumes "cached w \<or> \<not> connect_fails w" and "findOne_error w = None"
    and "\<forall>b. find (\<lambda>d. doc_id d = id_key w ident) (collection w) = Some b
             \<longrightarrow> field b ''composition_key'' = None"
  shows "alternatives w ident page_param size_param =
           \<lparr>response = Response 200 (Page 0 []), after = w\<lparr>cached := True\<rparr>,
            issued = (if cached w then [] else [Connect]) @
                     [FindOne (IdEq (id_key w ident)) (Some [''composition_key''])]\<rparr>"
  using assms(3)
  by (simp add: alternatives_connected [OF assms(1,2)] Let_def replied_def split: option.splits)

theorem alternatives_empty_without_base_or_key_witness:
  "response (alternatives pharmacy ''herbal'' None None) = Response 200 (Page 0 []) \<and>
   issued (alternatives pharmacy ''herbal'' None None) =
     [Connect, FindOne (IdEq (BStr ''herbal'')) (Some [''composition_key''])] \<and>
   response (alternatives pharmacy ''no-such-id'' None None) = Response 200 (Page 0 []) \<and>
   issued (alternatives pharmacy ''no-such-id'' None None) =
     [Connect, FindOne (IdEq (BStr ''no-such-id'')) (Some [''composition_key''])]"
proof -
  have c: "cached pharmacy \<or> \<not> connect_fails pharmacy" "\<not> cached pharmacy"
    by (simp_all add: pharmacy_def)
  have f: "findOne_error pharmacy = None" by (simp add: pharmacy_def)
  have k1: "id_key pharmacy ''herbal'' = BStr ''herbal''" by code_simp
  have k2: "id_key pharmacy ''no-such-id'' = BStr ''no-such-id''" by code_simp
  have h1: "\<forall>b. find (\<lambda>d. doc_id d = id_key pharmacy ''herbal'') (collection pharmacy) = Some b
             \<longrightarrow> field b ''composition_key'' = None"
  proof -
    have "find (\<lambda>d. doc_id d = id_key pharmacy ''herbal'') (collection pharmacy) = Some herbal"
      by code_simp
    moreover have "field herbal ''composition_key'' = None" by code_simp
    ultimately show ?thesis by simp
  qed
  have h2: "\<forall>b. find (\<lambda>d. doc_id d = id_key pharmacy ''no-such-id'') (collection pharmacy) = Some b
             \<longrightarrow> field b ''composition_key'' = None"
  proof -
    have "find (\<lambda>d. doc_id d = id_key pharmacy ''no-such-id'') (collection pharmacy) = None"
      by code_simp
    then show ?thesis by simp
  qed
  show ?thesis
    using alternatives_empty_without_base_or_key [OF c(1) f h1, of None None]
      alternatives_empty_without_base_or_key [OF c(1) f h2, of None None]
    by (simp add: c(2) k1 k2)
qed

section \<open>Alternatives of a base record\<close>

text \<open>
  C7. The claim: for every base record that exists and has a \<open>composition_key\<close>, the
  alternatives handler queries the records sharing that key, the base record left out,
  and with a sufficient page size the result contains them. The handler runs the
  second query only when the key is truthy (\<open>!base.composition_key\<close>): two records
  whose \<open>composition_key\<close> is the empty string share their key, and the alternatives of
  the one are answered with the empty page, without a second query, so the other is
  not in the result.
\<close>

theorem alternatives_empty_though_key_is_shared:
  "collection blank_keys = [mystery, enigma] \<and>
   field mystery ''composition_key'' = Some (BStr []) \<and>
   field enigma ''composition_key'' = Some (BStr []) \<and>
   doc_id enigma \<noteq> doc_id mystery \<and>
   response (alternatives blank_keys ''mystery'' None None) = Response 200 (Page 0 []) \<and>
   issued (alternatives blank_keys ''mystery'' None None) =
     [Connect, FindOne (IdEq (BStr ''mystery'')) (Some [''composition_key''])]"
  by code_simp

text \<open>
  C7, amended: whenever the first query runs (the handle is there and \<open>findOne\<close> does
  not reject), for a base record \<open>b\<close> that it finds and whose \<open>composition_key\<close> \<open>k\<close> is
  truthy, the second query is \<open>find\<close> with the filter
  \<open>{composition_key: k, _id: {$ne: b._id}}\<close>, the projection of the search handler on
  its six fields, skip \<open>page * size\<close> (the product of two doubles) and limit \<open>size\<close>.
  Every returned document is a record of the collection with key \<open>k\<close> and an \<open>_id\<close>
  other than \<open>b\<close>'s, cut down to \<open>_id\<close> and the six fields; when the store answers and
  skip and limit are numbers (the skip below \<open>2^63\<close>), the documents are that window of
  the records sharing \<open>k\<close>, and on page 0 with a size that covers them, all of them.
\<close>

theorem alternatives_share_key_and_exclude_base:
  assumes "cached w \<or> \<not> connect_fails w" and "findOne_error w = None"
    and "find (\<lambda>d. doc_id d = id_key w ident) (collection w) = Some b"
    and "field b ''composition_key'' = Some k" and "truthy k"
  shows "issued (alternatives w ident page_param size_param) =
           (if cached w then [] else [Connect]) @
           [FindOne (IdEq (id_key w ident)) (Some [''composition_key'']),
            Find (KeyEqIdNe k (doc_id b))
              (Some [''brand_name'', ''composition'', ''composition_key'', ''manufacturer'',
                     ''dosage_form'', ''price''])
              (js_times (search_page page_param) (alternatives_size size_param))
              (alternatives_size size_param)] \<and>
         (\<forall>t ds. response (alternatives w ident page_param size_param) = Response 200 (Page t ds) \<longrightarrow>
            (\<forall>d \<in> set ds. doc_id d \<noteq> doc_id b \<and>
               (\<exists>d0 \<in> set (collection w).
                  field d0 ''composition_key'' = Some k \<and> doc_id d0 \<noteq> doc_id b \<and> d = card d0))) \<and>
         (\<forall>skip s. find_error w = None \<and>
              js_times (search_page page_param) (alternatives_size size_param) = Num skip \<and>
              skip < 2 ^ 63 \<and> alternatives_size size_param = Num s \<longrightarrow>
            response (alternatives w ident page_param size_param) =
              Response 200
                (Page (length (take (nat s) (drop (nat skip)
                         (filter (\<lambda>d. field d ''composition_key'' = Some k \<and> doc_id d \<noteq> doc_id b)
                            (collection w)))))
                      (map card
                         (take (nat s) (drop (nat skip)
                            (filter (\<lambda>d. field d ''composition_key'' = Some k \<and> doc_id d \<noteq> doc_id b)
                               (collection w))))))) \<and>
         (\<forall>s. find_error w = None \<and> search_page page_param = Num 0 \<and>
              alternatives_size size_param = Num s \<and>
              int (length (filter (\<lambda>d. field d ''composition_key'' = Some k \<and> doc_id d \<noteq> doc_id b)
                            (collection w))) \<le> s \<longrightarrow>
            response (alternatives w ident page_param size_param) =
              Response 200
                (Page (length (filter (\<lambda>d. field d ''composition_key'' = Some k \<and> doc_id d \<noteq> doc_id b)
                                 (collection w)))
                      (map card
                         (filter (\<lambda>d. field d ''composition_key'' = Some k \<and> doc_id d \<noteq> doc_id b)
                            (collection w)))))"
proof -
  let ?size = "alternatives_size size_param"
  let ?skip = "js_times (search_page page_param) ?size"
  let ?ops = "(if cached w then [] else [Connect]) @
           [FindOne (IdEq (id_key w ident)) (Some [''composition_key'']),
            Find (KeyEqIdNe k (doc_id b)) card_projection ?skip ?size]"
  let ?same = "\<lambda>d. field d ''composition_key'' = Some k \<and> doc_id d \<noteq> doc_id b"
  have run: "alternatives w ident page_param size_param =
      (case find_toArray w (KeyEqIdNe k (doc_id b)) card_projection ?skip ?size of
         Inl err \<Rightarrow> caught err (w\<lparr>cached := True\<rparr>) ?ops
       | Inr docs \<Rightarrow> replied (Response 200 (Page (length docs) docs)) (w\<lparr>cached := True\<rparr>) ?ops)"
    using assms(3,4,5)
    by (simp add: alternatives_connected [OF assms(1,2)] Let_def split: sum.splits)
  have ops: "issued (alternatives w ident page_param size_param) = ?ops"
    by (simp add: run caught_def replied_def split: sum.splits)
  have members: "\<forall>d \<in> set ds. doc_id d \<noteq> doc_id b \<and>
      (\<exists>d0 \<in> set (collection w). ?same d0 \<and> d = card d0)"
    if "response (alternatives w ident page_param size_param) = Response 200 (Page t ds)" for t ds
  proof
    fix d assume d: "d \<in> set ds"
    from that have "find_toArray w (KeyEqIdNe k (doc_id b)) card_projection ?skip ?size = Inr ds"
      by (auto simp: run caught_def replied_def split: sum.splits)
    from find_toArray_members [OF this d] obtain d0 where
      d0: "d0 \<in> set (collection w)" "matches (regex_engine w) (KeyEqIdNe k (doc_id b)) d0"
        "d = project card_projection d0"
      by blast
    from d0(2) have same: "?same d0" by simp
    with d0(1,3) show "doc_id d \<noteq> doc_id b \<and> (\<exists>d0 \<in> set (collection w). ?same d0 \<and> d = card d0)"
      by (auto simp: project_card)
  qed
  have window: "response (alternatives w ident page_param size_param) =
      Response 200
        (Page (length (take (nat s) (drop (nat skip) (filter ?same (collection w)))))
              (map card (take (nat s) (drop (nat skip) (filter ?same (collection w))))))"
    if h: "find_error w = None \<and> ?skip = Num skip \<and> skip < 2 ^ 63 \<and> ?size = Num s" for skip s
  proof -
    from h have ok: "find_error w = None" and sk: "?skip = Num skip" and lt: "skip < 2 ^ 63"
      and s: "?size = Num s"
      by blast+
    have range: "1 \<le> s" "s < 2 ^ 63" using alternatives_size_range [OF s] by simp_all
    have nonneg: "0 \<le> skip"
    proof (rule skip_nonneg)
      show "js_times (search_page page_param) (Num s) = Num skip" using sk by (simp add: s)
      show "0 \<le> a" if "search_page page_param = Num a" for a
        using that by (rule search_page_range)
      show "0 \<le> s" using range(1) by simp
    qed
    have "find_toArray w (KeyEqIdNe k (doc_id b)) card_projection (Num skip) (Num s) =
        Inr (map card (take (nat s) (drop (nat skip) (filter ?same (collection w)))))"
      by (simp add: find_toArray_numbers [OF ok nonneg lt range] matches_KeyEqIdNe
          project_card [abs_def])
    then have "find_toArray w (KeyEqIdNe k (doc_id b)) card_projection ?skip ?size =
        Inr (map card (take (nat s) (drop (nat skip) (filter ?same (collection w)))))"
      unfolding sk unfolding s .
    then show ?thesis
      by (simp only: run sum.case replied_def outcome.simps length_map)
  qed
  have whole: "response (alternatives w ident page_param size_param) =
      Response 200
        (Page (length (filter ?same (collection w))) (map card (filter ?same (collection w))))"
    if h: "find_error w = None \<and> search_page page_param = Num 0 \<and> ?size = Num s \<and>
           int (length (filter ?same (collection w))) \<le> s" for s
  proof -
    from h have fits: "length (filter ?same (collection w)) \<le> nat s" by linarith
    from h have "?skip = Num 0" by (simp add: round_double_exact)
    with window [of 0 s] h fits show ?thesis by simp
  qed
  show ?thesis
  proof (intro conjI allI impI)
    show "issued (alternatives w ident page_param size_param) =
           (if cached w then [] else [Connect]) @
           [FindOne (IdEq (id_key w ident)) (Some [''composition_key'']),
            Find (KeyEqIdNe k (doc_id b))
              (Some [''brand_name'', ''composition'', ''composition_key'', ''manufacturer'',
                     ''dosage_form'', ''price''])
              ?skip ?size]"
      using ops by (simp add: card_projection_def)
  next
    fix t ds
    assume "response (alternatives w ident page_param size_param) = Response 200 (Page t ds)"
    then have "\<forall>d \<in> set ds. doc_id d \<noteq> doc_id b \<and>
        (\<exists>d0 \<in> set (collection w). ?same d0 \<and> d = card d0)"
      by (rule members)
    then show "\<forall>d \<in> set ds. doc_id d \<noteq> doc_id b \<and>
        (\<exists>d0 \<in> set (collection w).
           field d0 ''composition_key'' = Some k \<and> doc_id d0 \<noteq> doc_id b \<and> d = card d0)"
      by (simp only: conj_assoc)
  next
    fix skip s
    assume "find_error w = None \<and> ?skip = Num skip \<and> skip < 2 ^ 63 \<and> ?size = Num s"
    then show "response (alternatives w ident page_param size_param) =
      Response 200
        (Page (length (take (nat s) (drop (nat skip) (filter ?same (collection w)))))
              (map card (take (nat s) (drop (nat skip) (filter ?same (collection w))))))"
      by (rule window)
  next
    fix s
    assume "find_error w = None \<and> search_page page_param = Num 0 \<and> ?size = Num s \<and>
           int (length (filter ?same (collection w))) \<le> s"
    then show "response (alternatives w ident page_param size_param) =
      Response 200
        (Page (length (filter ?same (collection w))) (map card (filter ?same (collection w))))"
      by (rule whole)
  qed
qed

theorem alternatives_share_key_and_exclude_base_witness:
  "response (alternatives pharmacy ''calpol'' None None) =
     Response 200 (Page 2 [paracetamol_card, crocin]) \<and>
   issued (alternatives pharmacy ''calpol'' None None) =
     [Connect, FindOne (IdEq (BStr ''calpol'')) (Some [''composition_key'']),
      Find (KeyEqIdNe (BStr ''paracetamol-500'') (BStr ''calpol''))
        (Some [''brand_name'', ''composition'', ''composition_key'', ''manufacturer'',
               ''dosage_form'', ''price''])
        (Num 0) (Num 100)] \<and>
   calpol_card \<notin> set [paracetamol_card, crocin] \<and> calpol \<notin> set [paracetamol_card, crocin]"
proof -
  have c: "cached pharmacy \<or> \<not> connect_fails pharmacy" "\<not> cached pharmacy"
    by (simp_all add: pharmacy_def)
  have f: "findOne_error pharmacy = None" "find_error pharmacy = None"
    by (simp_all add: pharmacy_def)
  have key: "id_key pharmacy ''calpol'' = BStr ''calpol''" by code_simp
  have b: "find (\<lambda>d. doc_id d = id_key pharmacy ''calpol'') (collection pharmacy) = Some calpol"
    by code_simp
  have k: "field calpol ''composition_key'' = Some (BStr ''paracetamol-500'')"
    "doc_id calpol = BStr ''calpol''"
    by code_simp+
  have t: "truthy (BStr ''paracetamol-500'')" by simp
  have nums: "alternatives_size None = Num 100" "search_page None = Num 0"
    "round_double 0 = Num 0"
    by code_simp+
  have others: "filter (\<lambda>d. field d ''composition_key'' = Some (BStr ''paracetamol-500'') \<and>
                          doc_id d \<noteq> doc_id calpol) (collection pharmacy) = [paracetamol, crocin]"
    by code_simp
  have cards: "map card [paracetamol, crocin] = [paracetamol_card, crocin]"
    by code_simp
  have out: "calpol_card \<notin> set [paracetamol_card, crocin] \<and> calpol \<notin> set [paracetamol_card, crocin]"
    by code_simp
  note base_case = alternatives_share_key_and_exclude_base [OF c(1) f(1) b k(1) t, of None None]
  from base_case have ops: "issued (alternatives pharmacy ''calpol'' None None) =
     [Connect, FindOne (IdEq (BStr ''calpol'')) (Some [''composition_key'']),
      Find (KeyEqIdNe (BStr ''paracetamol-500'') (BStr ''calpol''))
        (Some [''brand_name'', ''composition'', ''composition_key'', ''manufacturer'',
               ''dosage_form'', ''price''])
        (Num 0) (Num 100)]"
    by (simp add: c(2) key k(2) nums)
  from base_case f(2) have "response (alternatives pharmacy ''calpol'' None None) =
     Response 200 (Page (length [paracetamol, crocin]) (map card [paracetamol, crocin]))"
    by (simp add: nums others)
  then have "response (alternatives pharmacy ''calpol'' None None) =
     Response 200 (Page 2 [paracetamol_card, crocin])"
    by (simp only: cards) simp
  with ops out show ?thesis by (simp only: simp_thms)
qed

section \<open>Paging\<close>

text \<open>
  C8. The claim: for every fixed collection and every set of \<open>N\<close> matching records,
  the pages 0 to \<open>N - 1\<close> of size 1, concatenated, are the documents of one request
  with a sufficiently large page. The search handler caps the page size at 200, so no
  single request returns more than 200 documents: with 201 matching records the
  concatenation holds 201 documents and the single request, asked for 201, holds 200.
\<close>

theorem paged_search_differs_beyond_cap:
  "search_matches warehouse (Some ''a'') = Inr bulk \<and> length bulk = 201 \<and>
   map_option length (concat_pages warehouse (Some ''a'') ''1'' [0..<201]) = Some 201 \<and>
   map_option length (single_page warehouse (Some ''a'') ''201'') = Some 200 \<and>
   concat_pages warehouse (Some ''a'') ''1'' [0..<201] \<noteq> single_page warehouse (Some ''a'') ''201''"
proof -
  let ?re = "Regexp [[LineStart, PatternChar CHR ''a'']] True"
  let ?engine = "regex_engine warehouse"
  have c: "cached warehouse \<or> \<not> connect_fails warehouse" and ok: "find_error warehouse = None"
    by (simp_all add: warehouse_def pharmacy_def)
  have q: "trim (or_default (Some ''a'') []) \<noteq> []" by code_simp
  have re: "RegExp ?engine (''^'' @ trim (or_default (Some ''a'') [])) ''i'' = Inr ?re"
    by code_simp
  have hit: "regex_test ?engine ?re ''Aspirin''" by code_simp
  have all: "filter (matches ?engine (BrandNameRegex ?re)) (collection warehouse) = bulk"
    using hit by (simp add: warehouse_def bulk_def field_def filter_map o_def del: regex_test.simps)
  have n: "length bulk = 201" by (simp add: bulk_def)
  have m: "search_matches warehouse (Some ''a'') = Inr bulk"
    using q by (simp add: search_matches_def Let_def re all del: append.simps)
  have size: "search_size (Some ''201'') = Num 200" by code_simp
  have few: "length (filter (matches ?engine (BrandNameRegex ?re)) (collection warehouse)) \<le> 2 ^ 53"
    by (simp only: all n) simp
  have paged: "concat_pages warehouse (Some ''a'') ''1'' [0..<201] = Some (map card bulk)"
    using concat_pages_all [OF c ok q re few] by (simp only: all n)
  have single: "single_page warehouse (Some ''a'') ''201'' = Some (map card (take 200 bulk))"
    using single_page_window [OF c ok q re size] by (simp add: all)
  have differ: "map card bulk \<noteq> map card (take 200 bulk)"
  proof
    assume "map card bulk = map card (take 200 bulk)"
    then have "length (map card bulk) = length (map card (take 200 bulk))"
      by (rule arg_cong)
    then show False by (simp add: n)
  qed
  show ?thesis
    using differ by (simp add: m n paged single)
qed

text \<open>
  C8, amended: for every \<open>q\<close> that is blank or whose pattern \<open>new RegExp\<close> accepts, with
  \<open>M\<close> the records it matches in the collection's order (\<open>search_matches\<close>), when the
  handle is there or the connection succeeds, \<open>find\<close> does not reject and the length
  \<open>N\<close> of \<open>M\<close> is no more than the effective size of the single request (so at most
  200), the concatenation of the size-1 pages 0 to
  \<open>N - 1\<close> is the document list of the single request for page 0, in the same order:
  the records of \<open>M\<close>, each cut down to \<open>_id\<close> and the six projected fields.
\<close>

theorem paged_search_equals_single_page_within_cap:
  assumes "cached w \<or> \<not> connect_fails w" and "find_error w = None"
    and "search_matches w q_param = Inr M"
    and "search_size (Some size_text) = Num s"
    and "int (length M) \<le> s"
  shows "concat_pages w q_param ''1'' [0..<length M] = single_page w q_param size_text \<and>
         single_page w q_param size_text = Some (map card M) \<and>
         length M \<le> 200"
  using assms(3)
proof (cases rule: search_matches_cases)
  case blank
  then show ?thesis
    by (simp add: single_page_blank [OF assms(1)])
next
  case (pattern regex)
  have fits: "length M \<le> nat s" using assms(5) by linarith
  have cap: "length M \<le> 200"
    using assms(5) search_size_range [OF assms(4)] by linarith
  have few: "length (filter (matches (regex_engine w) (BrandNameRegex regex)) (collection w)) \<le> 2 ^ 53"
  proof -
    have "length M \<le> (2 ^ 53 :: nat)" using cap by simp
    then show ?thesis by (simp only: pattern(3))
  qed
  have single: "single_page w q_param size_text = Some (map card M)"
    using single_page_window [OF assms(1,2) pattern(1,2) assms(4)] fits
    by (simp add: pattern(3))
  have paged: "concat_pages w q_param ''1'' [0..<length M] = Some (map card M)"
    using concat_pages_all [OF assms(1,2) pattern(1,2) few] by (simp only: pattern(3))
  from single paged cap show ?thesis by simp
qed

theorem paged_search_equals_single_page_within_cap_witness:
  "search_matches pharmacy (Some ''para'') = Inr [paracetamol, herbal, mystery] \<and>
   concat_pages pharmacy (Some ''para'') ''1'' [0..<3] = single_page pharmacy (Some ''para'') ''50'' \<and>
   single_page pharmacy (Some ''para'') ''50'' = Some [paracetamol_card, herbal, mystery]"
proof -
  have c: "cached pharmacy \<or> \<not> connect_fails pharmacy" and ok: "find_error pharmacy = None"
    by (simp_all add: pharmacy_def)
  have size: "search_size (Some ''50'') = Num 50" by code_simp
  have m: "search_matches pharmacy (Some ''para'') = Inr [paracetamol, herbal, mystery]"
    by code_simp
  have fits: "int (length [paracetamol, herbal, mystery]) \<le> 50" by simp
  have len: "length [paracetamol, herbal, mystery] = 3" by simp
  have cards: "map card [paracetamol, herbal, mystery] = [paracetamol_card, herbal, mystery]"
    by code_simp
  note r = paged_search_equals_single_page_within_cap [OF c ok m size fits]
  from r have paged: "concat_pages pharmacy (Some ''para'') ''1'' [0..<3] =
      single_page pharmacy (Some ''para'') ''50''"
    by (simp only: len)
  from r have single: "single_page pharmacy (Some ''para'') ''50'' =
      Some [paracetamol_card, herbal, mystery]"
    by (simp only: cards)
  show ?thesis
    using m paged single by (simp only: simp_thms)
qed

section \<open>Failures\<close>

text \<open>
  C9. When the connection attempt fails, every handler answers 500 with the body
  \<open>{error: "Error: Failed to connect to database"}\<close>, the text of the error
  \<open>connectToDb\<close> throws, after the single attempt; when \<open>new RegExp\<close> throws on the query
  text, the search handler answers 500 with \<open>String(err)\<close> and issues no query; when a
  store query rejects with an error, the handler that issued it answers 500 with
  \<open>String(err)\<close> and issues nothing further. Each handler is a total function to a
  response: no error leaves it, and no operation is tried twice.
\<close>

theorem failures_are_answered_500:
  "(\<not> cached w \<and> connect_fails w \<longrightarrow>
      search w q_param page_param size_param =
        \<lparr>response = Response 500 (ErrorBody ''Error: Failed to connect to database''),
              after = w, issued = [Connect]\<rparr> \<and>
      get_by_id w ident =
        \<lparr>response = Response 500 (ErrorBody ''Error: Failed to connect to database''),
         after = w, issued = [Connect]\<rparr> \<and>
      alternatives w ident page_param size_param =
        \<lparr>response = Response 500 (ErrorBody ''Error: Failed to connect to database''),
         after = w, issued = [Connect]\<rparr>) \<and>
   ((cached w \<or> \<not> connect_fails w) \<and> findOne w (IdEq (id_key w ident)) None = Inl e1 \<longrightarrow>
      get_by_id w ident =
        \<lparr>response = Response 500 (ErrorBody (String_of_error e1)), after = w\<lparr>cached := True\<rparr>,
         issued = (if cached w then [] else [Connect]) @ [FindOne (IdEq (id_key w ident)) None]\<rparr>) \<and>
   ((cached w \<or> \<not> connect_fails w) \<and>
    findOne w (IdEq (id_key w ident)) (Some [''composition_key'']) = Inl e2 \<longrightarrow>
      alternatives w ident page_param size_param =
        \<lparr>response = Response 500 (ErrorBody (String_of_error e2)), after = w\<lparr>cached := True\<rparr>,
         issued = (if cached w then [] else [Connect]) @
                  [FindOne (IdEq (id_key w ident)) (Some [''composition_key''])]\<rparr>) \<and>
   ((cached w \<or> \<not> connect_fails w) \<and> trim (or_default q_param []) \<noteq> [] \<and>
    RegExp (regex_engine w) (''^'' @ trim (or_default q_param [])) ''i'' = Inl e0 \<longrightarrow>
      search w q_param page_param size_param =
        \<lparr>response = Response 500 (ErrorBody (String_of_error e0)), after = w\<lparr>cached := True\<rparr>,
         issued = (if cached w then [] else [Connect])\<rparr>) \<and>
   ((cached w \<or> \<not> connect_fails w) \<and> trim (or_default q_param []) \<noteq> [] \<and>
    RegExp (regex_engine w) (''^'' @ trim (or_default q_param [])) ''i'' = Inr regex \<and>
    find_toArray w (BrandNameRegex regex) card_projection
      (js_times (search_page page_param) (search_size size_param)) (search_size size_param) = Inl e3 \<longrightarrow>
      search w q_param page_param size_param =
        \<lparr>response = Response 500 (ErrorBody (String_of_error e3)), after = w\<lparr>cached := True\<rparr>,
              issued = (if cached w then [] else [Connect]) @
                [Find (BrandNameRegex regex) card_projection
                   (js_times (search_page page_param) (search_size size_param))
                   (search_size size_param)]\<rparr>) \<and>
   ((cached w \<or> \<not> connect_fails w) \<and> findOne_error w = None \<and>
    find (\<lambda>d. doc_id d = id_key w ident) (collection w) = Some b \<and>
    field b ''composition_key'' = Some k \<and> truthy k \<and>
    find_toArray w (KeyEqIdNe k (doc_id b)) card_projection
      (js_times (search_page page_param) (alternatives_size size_param))
      (alternatives_size size_param) = Inl e4 \<longrightarrow>
      alternatives w ident page_param size_param =
        \<lparr>response = Response 500 (ErrorBody (String_of_error e4)), after = w\<lparr>cached := True\<rparr>,
         issued = (if cached w then [] else [Connect]) @
           [FindOne (IdEq (id_key w ident)) (Some [''composition_key'']),
            Find (KeyEqIdNe k (doc_id b)) card_projection
              (js_times (search_page page_param) (alternatives_size size_param))
              (alternatives_size size_param)]\<rparr>)"
proof (intro conjI impI)
  assume "\<not> cached w \<and> connect_fails w"
  then have d: "\<not> cached w" "connect_fails w" by simp_all
  show "search w q_param page_param size_param =
        \<lparr>response = Response 500 (ErrorBody ''Error: Failed to connect to database''),
              after = w, issued = [Connect]\<rparr>"
    by (simp add: search_disconnected [OF d] caught_def String_of_error_def)
  show "get_by_id w ident =
        \<lparr>response = Response 500 (ErrorBody ''Error: Failed to connect to database''),
         after = w, issued = [Connect]\<rparr>"
    by (simp add: get_by_id_disconnected [OF d] caught_def String_of_error_def)
  show "alternatives w ident page_param size_param =
        \<lparr>response = Response 500 (ErrorBody ''Error: Failed to connect to database''),
         after = w, issued = [Connect]\<rparr>"
    by (simp add: alternatives_disconnected [OF d] caught_def String_of_error_def)
next
  assume "(cached w \<or> \<not> connect_fails w) \<and> findOne w (IdEq (id_key w ident)) None = Inl e1"
  then show "get_by_id w ident =
        \<lparr>response = Response 500 (ErrorBody (String_of_error e1)), after = w\<lparr>cached := True\<rparr>,
         issued = (if cached w then [] else [Connect]) @ [FindOne (IdEq (id_key w ident)) None]\<rparr>"
    by (simp add: get_by_id_findOne_rejects caught_def)
next
  assume "(cached w \<or> \<not> connect_fails w) \<and>
    findOne w (IdEq (id_key w ident)) (Some [''composition_key'']) = Inl e2"
  then show "alternatives w ident page_param size_param =
        \<lparr>response = Response 500 (ErrorBody (String_of_error e2)), after = w\<lparr>cached := True\<rparr>,
         issued = (if cached w then [] else [Connect]) @
                  [FindOne (IdEq (id_key w ident)) (Some [''composition_key''])]\<rparr>"
    by (simp add: alternatives_findOne_rejects caught_def)
next
  assume a: "(cached w \<or> \<not> connect_fails w) \<and> trim (or_default q_param []) \<noteq> [] \<and>
    RegExp (regex_engine w) (''^'' @ trim (or_default q_param [])) ''i'' = Inl e0"
  then have c: "cached w \<or> \<not> connect_fails w" by simp
  from a show "search w q_param page_param size_param =
        \<lparr>response = Response 500 (ErrorBody (String_of_error e0)), after = w\<lparr>cached := True\<rparr>,
         issued = (if cached w then [] else [Connect])\<rparr>"
    by (simp add: search_connected [OF c] Let_def caught_def)
next
  assume a: "(cached w \<or> \<not> connect_fails w) \<and> trim (or_default q_param []) \<noteq> [] \<and>
    RegExp (regex_engine w) (''^'' @ trim (or_default q_param [])) ''i'' = Inr regex \<and>
    find_toArray w (BrandNameRegex regex) card_projection
      (js_times (search_page page_param) (search_size size_param)) (search_size size_param) = Inl e3"
  then have c: "cached w \<or> \<not> connect_fails w" by simp
  from a show "search w q_param page_param size_param =
        \<lparr>response = Response 500 (ErrorBody (String_of_error e3)), after = w\<lparr>cached := True\<rparr>,
              issued = (if cached w then [] else [Connect]) @
                [Find (BrandNameRegex regex) card_projection
                   (js_times (search_page page_param) (search_size size_param))
                   (search_size size_param)]\<rparr>"
    by (simp add: search_connected [OF c] Let_def caught_def)
next
  assume a: "(cached w \<or> \<not> connect_fails w) \<and> findOne_error w = None \<and>
    find (\<lambda>d. doc_id d = id_key w ident) (collection w) = Some b \<and>
    field b ''composition_key'' = Some k \<and> truthy k \<and>
    find_toArray w (KeyEqIdNe k (doc_id b)) card_projection
      (js_times (search_page page_param) (alternatives_size size_param))
      (alternatives_size size_param) = Inl e4"
  then have c: "cached w \<or> \<not> connect_fails w" and f: "findOne_error w = None" by simp_all
  from a show "alternatives w ident page_param size_param =
        \<lparr>response = Response 500 (ErrorBody (String_of_error e4)), after = w\<lparr>cached := True\<rparr>,
         issued = (if cached w then [] else [Connect]) @
           [FindOne (IdEq (id_key w ident)) (Some [''composition_key'']),
            Find (KeyEqIdNe k (doc_id b)) card_projection
              (js_times (search_page page_param) (alternatives_size size_param))
              (alternatives_size size_param)]\<rparr>"
    by (simp add: alternatives_connected [OF c f] Let_def caught_def)
qed

theorem failures_are_answered_500_witness:
  "response (search pharmacy_down (Some ''para'') None None) =
     Response 500 (ErrorBody ''Error: Failed to connect to database'') \<and>
   response (get_by_id pharmacy_down ''calpol'') =
     Response 500 (ErrorBody ''Error: Failed to connect to database'') \<and>
   response (alternatives pharmacy_down ''calpol'' None None) =
     Response 500 (ErrorBody ''Error: Failed to connect to database'') \<and>
   issued (get_by_id pharmacy_down ''calpol'') = [Connect] \<and>
   response (get_by_id pharmacy_lost ''calpol'') =
     Response 500 (ErrorBody ''MongoNetworkError: connection closed'') \<and>
   issued (get_by_id pharmacy_lost ''calpol'') = [FindOne (IdEq (BStr ''calpol'')) None] \<and>
   response (alternatives pharmacy_lost ''calpol'' None None) =
     Response 500 (ErrorBody ''MongoNetworkError: connection closed'') \<and>
   response (search pharmacy (Some ''('') None None) =
     Response 500 (ErrorBody ''SyntaxError: Invalid regular expression: /^(/'') \<and>
   issued (search pharmacy (Some ''('') None None) = [Connect] \<and>
   response (search pharmacy_lost (Some ''para'') None None) =
     Response 500 (ErrorBody ''MongoNetworkError: connection closed'') \<and>
   response (alternatives pharmacy_find_lost ''calpol'' None None) =
     Response 500 (ErrorBody ''MongoNetworkError: connection closed'') \<and>
   issued (alternatives pharmacy_find_lost ''calpol'' None None) =
     [FindOne (IdEq (BStr ''calpol'')) (Some [''composition_key'']),
      Find (KeyEqIdNe (BStr ''paracetamol-500'') (BStr ''calpol''))
        (Some [''brand_name'', ''composition'', ''composition_key'', ''manufacturer'',
               ''dosage_form'', ''price''])
        (Num 0) (Num 100)]"
proof -
  have down: "\<not> cached pharmacy_down \<and> connect_fails pharmacy_down"
    by (simp add: pharmacy_down_def pharmacy_def)
  note d = failures_are_answered_500 [THEN conjunct1, rule_format, OF down]
  have msg: "String_of_error network_error = ''MongoNetworkError: connection closed''"
    by (simp add: String_of_error_def network_error_def)
  have lost: "cached pharmacy_lost \<or> \<not> connect_fails pharmacy_lost" "cached pharmacy_lost"
    "findOne_error pharmacy_lost = Some network_error" "find_error pharmacy_lost = Some network_error"
    by (simp_all add: pharmacy_lost_def)
  have key: "id_key pharmacy_lost ''calpol'' = BStr ''calpol''" by code_simp
  have g: "get_by_id pharmacy_lost ''calpol'' =
      \<lparr>response = Response 500 (ErrorBody (String_of_error network_error)),
       after = pharmacy_lost\<lparr>cached := True\<rparr>,
       issued = (if cached pharmacy_lost then [] else [Connect]) @
                [FindOne (IdEq (id_key pharmacy_lost ''calpol'')) None]\<rparr>"
    using failures_are_answered_500 [THEN conjunct2, THEN conjunct1, rule_format,
        where w = pharmacy_lost and ident = "''calpol''" and ?e1.0 = network_error]
      lost(1) findOne_rejects [OF lost(3)]
    by blast
  have a: "alternatives pharmacy_lost ''calpol'' None None =
      \<lparr>response = Response 500 (ErrorBody (String_of_error network_error)),
       after = pharmacy_lost\<lparr>cached := True\<rparr>,
       issued = (if cached pharmacy_lost then [] else [Connect]) @
                [FindOne (IdEq (id_key pharmacy_lost ''calpol'')) (Some [''composition_key''])]\<rparr>"
    using failures_are_answered_500 [THEN conjunct2, THEN conjunct2, THEN conjunct1, rule_format,
        where w = pharmacy_lost and ident = "''calpol''" and ?e2.0 = network_error
          and page_param = None and size_param = None]
      lost(1) findOne_rejects [OF lost(3)]
    by blast
  have c: "cached pharmacy \<or> \<not> connect_fails pharmacy" "\<not> cached pharmacy"
    by (simp_all add: pharmacy_def)
  have paren: "trim (or_default (Some ''('') []) \<noteq> []" by code_simp
  have thrown: "RegExp (regex_engine pharmacy) (''^'' @ trim (or_default (Some ''('') [])) ''i'' =
      Inl (JsError ''SyntaxError'' ''Invalid regular expression: /^(/'')"
    by code_simp
  have x: "search pharmacy (Some ''('') None None =
      \<lparr>response = Response 500
         (ErrorBody (String_of_error (JsError ''SyntaxError'' ''Invalid regular expression: /^(/''))),
       after = pharmacy\<lparr>cached := True\<rparr>,
       issued = (if cached pharmacy then [] else [Connect])\<rparr>"
    using failures_are_answered_500 [THEN conjunct2, THEN conjunct2, THEN conjunct2, THEN conjunct1,
        rule_format, where w = pharmacy and q_param = "Some ''(''"
          and ?e0.0 = "JsError ''SyntaxError'' ''Invalid regular expression: /^(/''"
          and page_param = None and size_param = None]
      c(1) paren thrown
    by blast
  have xmsg: "String_of_error (JsError ''SyntaxError'' ''Invalid regular expression: /^(/'') =
      ''SyntaxError: Invalid regular expression: /^(/''"
    by (simp add: String_of_error_def)
  have q: "trim (or_default (Some ''para'') []) \<noteq> []" by code_simp
  have re: "RegExp (regex_engine pharmacy_lost) (''^'' @ trim (or_default (Some ''para'') [])) ''i'' =
      Inr (Regexp [LineStart # map PatternChar ''para''] True)"
    by code_simp
  have s: "search pharmacy_lost (Some ''para'') None None =
      \<lparr>response = Response 500 (ErrorBody (String_of_error network_error)),
       after = pharmacy_lost\<lparr>cached := True\<rparr>,
       issued = (if cached pharmacy_lost then [] else [Connect]) @
         [Find (BrandNameRegex (Regexp [LineStart # map PatternChar ''para''] True)) card_projection
            (js_times (search_page None) (search_size None)) (search_size None)]\<rparr>"
    using failures_are_answered_500 [THEN conjunct2, THEN conjunct2, THEN conjunct2, THEN conjunct2,
        THEN conjunct1, rule_format, where w = pharmacy_lost and q_param = "Some ''para''"
          and regex = "Regexp [LineStart # map PatternChar ''para''] True"
          and page_param = None and size_param = None and ?e3.0 = network_error]
      lost(1) q re find_toArray_rejects [OF lost(4)]
    by blast
  have fl: "cached pharmacy_find_lost \<or> \<not> connect_fails pharmacy_find_lost"
    "cached pharmacy_find_lost" "findOne_error pharmacy_find_lost = None"
    "find_error pharmacy_find_lost = Some network_error"
    by (simp_all add: pharmacy_find_lost_def pharmacy_def)
  have key': "id_key pharmacy_find_lost ''calpol'' = BStr ''calpol''" by code_simp
  have b: "find (\<lambda>d. doc_id d = id_key pharmacy_find_lost ''calpol'') (collection pharmacy_find_lost)
             = Some calpol"
    by code_simp
  have k: "field calpol ''composition_key'' = Some (BStr ''paracetamol-500'')" "doc_id calpol = BStr ''calpol''"
    by code_simp+
  have t: "truthy (BStr ''paracetamol-500'')" by simp
  have nums: "alternatives_size None = Num 100" "js_times (search_page None) (Num 100) = Num 0"
    by code_simp+
  have a2: "alternatives pharmacy_find_lost ''calpol'' None None =
      \<lparr>response = Response 500 (ErrorBody (String_of_error network_error)),
       after = pharmacy_find_lost\<lparr>cached := True\<rparr>,
       issued = (if cached pharmacy_find_lost then [] else [Connect]) @
         [FindOne (IdEq (id_key pharmacy_find_lost ''calpol'')) (Some [''composition_key'']),
          Find (KeyEqIdNe (BStr ''paracetamol-500'') (doc_id calpol)) card_projection
            (js_times (search_page None) (alternatives_size None)) (alternatives_size None)]\<rparr>"
    using failures_are_answered_500 [THEN conjunct2, THEN conjunct2, THEN conjunct2, THEN conjunct2,
        THEN conjunct2, rule_format, where w = pharmacy_find_lost and ident = "''calpol''"
          and b = calpol and k = "BStr ''paracetamol-500''" and page_param = None
          and size_param = None and ?e4.0 = network_error]
      fl(1,3) b k(1) t find_toArray_rejects [OF fl(4)]
    by blast
  have ops: "issued (alternatives pharmacy_find_lost ''calpol'' None None) =
     [FindOne (IdEq (BStr ''calpol'')) (Some [''composition_key'']),
      Find (KeyEqIdNe (BStr ''paracetamol-500'') (BStr ''calpol''))
        (Some [''brand_name'', ''composition'', ''composition_key'', ''manufacturer'',
               ''dosage_form'', ''price''])
        (Num 0) (Num 100)]"
    unfolding a2 nums by (simp add: fl(2) key' k(2) card_projection_def)
  show ?thesis
    unfolding ops by (simp add: d g a s a2 x xmsg msg lost(2) c(2) key)
qed

section \<open>Falsy composition keys\<close>

text \<open>
  C10. A base record whose \<open>composition_key\<close> is present but falsy (the empty string,
  0, \<open>NaN\<close>, \<open>false\<close>, \<open>null\<close>) is answered exactly as one without the field: the
  test \<open>!base.composition_key\<close> is on the value's truthiness.
\<close>

theorem alternatives_empty_for_falsy_key:
  assumes "cached w \<or> \<not> connect_fails w" and "findOne_error w = None"
    and "find (\<lambda>d. doc_id d = id_key w ident) (collection w) = Some b"
    and "field b ''composition_key'' = Some v" and "\<not> truthy v"
  shows "alternatives w ident page_param size_param =
           \<lparr>response = Response 200 (Page 0 []), after = w\<lparr>cached := True\<rparr>,
            issued = (if cached w then [] else [Connect]) @
                     [FindOne (IdEq (id_key w ident)) (Some [''composition_key''])]\<rparr>"
  using assms(3,4,5)
  by (simp add: alternatives_connected [OF assms(1,2)] Let_def replied_def)

theorem alternatives_empty_for_falsy_key_witness:
  "field mystery ''composition_key'' = Some (BStr []) \<and>
   response (alternatives pharmacy ''mystery'' None None) = Response 200 (Page 0 []) \<and>
   issued (alternatives pharmacy ''mystery'' None None) =
     [Connect, FindOne (IdEq (BStr ''mystery'')) (Some [''composition_key''])]"
proof -
  have c: "cached pharmacy \<or> \<not> connect_fails pharmacy" "\<not> cached pharmacy"
    by (simp_all add: pharmacy_def)
  have f: "findOne_error pharmacy = None" by (simp add: pharmacy_def)
  have k: "id_key pharmacy ''mystery'' = BStr ''mystery''" by code_simp
  have b: "find (\<lambda>d. doc_id d = id_key pharmacy ''mystery'') (collection pharmacy) = Some mystery"
    by code_simp
  have v: "field mystery ''composition_key'' = Some (BStr [])" by code_simp
  have t: "\<not> truthy (BStr [])" by simp
  show ?thesis
    using alternatives_empty_for_falsy_key [OF c(1) f b v t, of None None]
    by (simp add: c(2) k v)
qed

end
